theory Spec2Isabelle
  imports Main
begin

section \<open>The document store\<close>

text \<open>
  The editor works on DOM elements, which are mutable objects with identity: the cursor
  position is a reference to an element, and an edit changes the child list of one
  element and the parent link of another. The store is the list of all elements ever
  created; a reference is an index into it, and a new element is appended at the end.
  A reference held by the program always designates an allocated element, so the
  theorems below read the store only at references below its length.
\<close>

type_synonym ref = nat

record node =
  nodeType :: nat
  tagName :: string
  attributes :: "(string \<times> string) list"
  childNodes :: "ref list"
  parentNode :: "ref option"

type_synonym dom = "node list"

datatype error = TypeError | InvalidValue

text \<open>
  Modelled from the spec: \<open>utils/lcc\<close> is not part of the sources at hand. The editor
  branches on the kind of a node by comparing tag names as strings, whatever their case:
  \<open>lcc(s)\<close> is \<open>s\<close> in lower case and \<open>lcc(s, t)\<close> tells whether that equals \<open>t\<close>.
\<close>

definition lower :: "char \<Rightarrow> char" where
  "lower c =
     (case map_of (zip ''ABCDEFGHIJKLMNOPQRSTUVWXYZ'' ''abcdefghijklmnopqrstuvwxyz'') c of
        None \<Rightarrow> c
      | Some d \<Rightarrow> d)"

definition lcc :: "string \<Rightarrow> string" where
  "lcc s = map lower s"

definition lcc2 :: "string \<Rightarrow> string \<Rightarrow> bool" where
  "lcc2 s t = (lcc s = t)"

text \<open>
  Modelled from the spec: \<open>utils/create-element\<close> is not part of the sources at hand.
  It makes a new element of the given tag with the given attributes, attached nowhere.
\<close>

definition createElement :: "string \<Rightarrow> (string \<times> string) list \<Rightarrow> dom \<Rightarrow> ref \<times> dom" where
  "createElement tag as h =
     (length h, h @ [\<lparr>nodeType = 1, tagName = tag, attributes = as, childNodes = [], parentNode = None\<rparr>])"

text \<open>
  Modelled from the spec: \<open>utils/prepend-element\<close>, \<open>utils/append-element\<close> and
  \<open>utils/append-element-after\<close> are not part of the sources at hand. They place an
  element first among the children of a container, last among them, and immediately after
  a given sibling. As every DOM insertion does, they first take the element out of the
  child list it is in. An element with no parent has no place "after" it: there the DOM
  call fails on the missing parent.
\<close>

definition detach :: "ref \<Rightarrow> dom \<Rightarrow> dom" where
  "detach el h =
     (case parentNode (h ! el) of
        None \<Rightarrow> h
      | Some q \<Rightarrow>
          (h[q := (h ! q)\<lparr>childNodes := remove1 el (childNodes (h ! q))\<rparr>])
            [el := (h[q := (h ! q)\<lparr>childNodes := remove1 el (childNodes (h ! q))\<rparr>] ! el)
                     \<lparr>parentNode := None\<rparr>])"

definition attach :: "ref \<Rightarrow> ref list \<Rightarrow> ref \<Rightarrow> dom \<Rightarrow> dom" where
  "attach p cs el h =
     (h[p := (h ! p)\<lparr>childNodes := cs\<rparr>])
       [el := (h[p := (h ! p)\<lparr>childNodes := cs\<rparr>] ! el)\<lparr>parentNode := Some p\<rparr>]"

definition prependElement :: "ref \<Rightarrow> ref \<Rightarrow> dom \<Rightarrow> dom" where
  "prependElement p el h =
     (let h1 = detach el h in attach p (el # childNodes (h1 ! p)) el h1)"

definition appendChild :: "ref \<Rightarrow> ref \<Rightarrow> dom \<Rightarrow> dom" where
  "appendChild p el h =
     (let h1 = detach el h in attach p (childNodes (h1 ! p) @ [el]) el h1)"

definition appendElement :: "ref \<Rightarrow> ref list \<Rightarrow> dom \<Rightarrow> dom" where
  "appendElement p els h = fold (appendChild p) els h"

fun insertAfter :: "ref \<Rightarrow> ref \<Rightarrow> ref list \<Rightarrow> ref list" where
  "insertAfter r el [] = [el]"
| "insertAfter r el (x # xs) = (if x = r then x # el # xs else x # insertAfter r el xs)"

definition appendElementAfter :: "ref \<Rightarrow> ref \<Rightarrow> dom \<Rightarrow> error + dom" where
  "appendElementAfter r el h =
     (case parentNode (h ! r) of
        None \<Rightarrow> Inl TypeError
      | Some q \<Rightarrow>
          (let h1 = detach el h in Inr (attach q (insertAfter r el (childNodes (h1 ! q))) el h1)))"

section \<open>The editor\<close>

text \<open>
  The hidden input holds a JavaScript string, a sequence of UTF-16 code units;
  \<open>String.prototype.trim\<close> removes the white space and line terminators of ECMAScript
  from both ends.
\<close>

type_synonym jsstring = "nat list"

definition isWhiteSpace :: "nat \<Rightarrow> bool" where
  "isWhiteSpace c =
     (c = 9 \<or> c = 10 \<or> c = 11 \<or> c = 12 \<or> c = 13 \<or> c = 32 \<or> c = 160 \<or> c = 5760 \<or>
      (8192 \<le> c \<and> c \<le> 8202) \<or> c = 8232 \<or> c = 8233 \<or> c = 8239 \<or> c = 8287 \<or>
      c = 12288 \<or> c = 65279)"

definition trim :: "jsstring \<Rightarrow> jsstring" where
  "trim s = rev (dropWhile isWhiteSpace (rev (dropWhile isWhiteSpace s)))"

text \<open>
  What the editor hands to the outside is the serialised clean copy of its value
  (\<open>getValue().outerHTML\<close>) or the markup for display (\<open>toDisplay\<close>). Both are functions
  of the elements reachable from the root, so the store together with the root stands for
  them here.
\<close>

type_synonym snapshot = "dom \<times> ref"

datatype event = Focus | Blur | Update snapshot | RawInput jsstring

text \<open>
  Calls to the collaborators the editor does not own are recorded in a trace, in the order
  they happen: the event emitter, the host input, the display's classes and caret, the
  \<open>Tree\<close> object, the typesetting renderer (one round trip per call, numbered in the order
  of submission), the \<open>Rendered\<close> and \<open>Cursor\<close> objects, and the scroll helper.
\<close>

datatype effect =
    Emit event
  | FocusInput
  | AddFocusedClass
  | RemoveFocusedClass
  | ShowCaret
  | HideCaret
  | FreezeWrapper
  | ReleaseWrapper
  | TreeSync snapshot
  | Typeset nat snapshot
  | RenderedUpdate nat
  | CursorUpdate nat
  | ScrollToCaret
  | BlinkerDestroy
  | RemoveContainer

datatype target = Display | Input | Window

datatype handler =
    HandleClick | HandleInput | HandleKeydown | HandleFocus | HandleBlur
  | HandleMouseenter | HandleMouseleave | HandleResize

datatype blinker = Blinking | FrozenVisible | Stopped

record editor =
  store :: dom
  "value" :: ref
  position :: "ref option"
  inputValue :: jsstring
  elValue :: "snapshot option"
  focused :: bool
  mouseAtDisplay :: bool
  elementJax :: bool
  placeholder :: string
  allowNewlines :: bool
  readonly :: bool
  listeners :: "(target \<times> string \<times> handler) list"
  mounted :: bool
  blinkerState :: blinker
  issued :: nat
  inflight :: "nat list"
  scrolls :: "nat list"
  trace :: "effect list"

datatype promise = Resolved | Pending nat

definition emit :: "event \<Rightarrow> editor \<Rightarrow> editor" where
  "emit e s = s\<lparr>trace := trace s @ [Emit e]\<rparr>"

definition handleFocus :: "editor \<Rightarrow> editor" where
  "handleFocus s =
     (let s1 = emit Focus s in
      s1\<lparr>focused := True, trace := trace s1 @ [AddFocusedClass, ShowCaret]\<rparr>)"

definition handleBlur :: "editor \<Rightarrow> editor" where
  "handleBlur s =
     (if mouseAtDisplay s then s
      else (let s1 = emit Blur s in
            s1\<lparr>focused := False, trace := trace s1 @ [RemoveFocusedClass, HideCaret]\<rparr>))"

definition handleInput :: "editor \<Rightarrow> editor" where
  "handleInput s =
     (let input = trim (inputValue s);
          s1 = s\<lparr>inputValue := []\<rparr>
      in if input \<noteq> [] then emit (RawInput input) s1 else s1)"

definition handleMouseenter :: "editor \<Rightarrow> editor" where
  "handleMouseenter s = s\<lparr>mouseAtDisplay := True\<rparr>"

definition handleMouseleave :: "editor \<Rightarrow> editor" where
  "handleMouseleave s = s\<lparr>mouseAtDisplay := False\<rparr>"

text \<open>
  \<open>update\<close> returns a promise. With no element jax it is resolved at once and nothing
  else happens. Otherwise the value is serialised, written to the textarea and emitted,
  the \<open>Tree\<close> object is brought up to date, and the markup is submitted to the renderer:
  the promise stays pending until that round trip completes.
\<close>

definition update :: "editor \<Rightarrow> editor \<times> promise" where
  "update s =
     (if \<not> elementJax s then (s, Resolved)
      else (let v = (store s, value s); n = issued s in
            (s\<lparr>elValue := Some v,
               issued := Suc n,
               inflight := inflight s @ [n],
               trace := trace s @ [FreezeWrapper, Emit (Update v), TreeSync v, Typeset n v]\<rparr>,
             Pending n)))"

text \<open>
  \<open>resolve n\<close> is the callback of round trip \<open>n\<close>, run when the renderer completes it,
  followed by the continuation chained on the promise, if any. The callback releases the
  wrapper and calls \<open>rendered.update()\<close> and \<open>cursor.update()\<close>, whatever was called
  since the round trip was submitted. \<open>Rendered\<close> and \<open>Cursor\<close> are not part of the
  sources at hand: the two calls are recorded in the trace, with the number of the round
  trip whose completion made them, and what they compute is left open.
\<close>

definition resolve :: "nat \<Rightarrow> editor \<Rightarrow> editor" where
  "resolve n s =
     (if n \<in> set (inflight s)
      then s\<lparr>inflight := removeAll n (inflight s),
             scrolls := removeAll n (scrolls s),
             trace := trace s @ [ReleaseWrapper, RenderedUpdate n, CursorUpdate n]
                        @ (if n \<in> set (scrolls s) then [ScrollToCaret] else [])\<rparr>
      else s)"

text \<open>\<open>p.then(this.scrollToCaret)\<close>: at once on a resolved promise, else when it resolves.\<close>

fun thenScroll :: "editor \<times> promise \<Rightarrow> editor" where
  "thenScroll (s, Resolved) = s\<lparr>trace := trace s @ [ScrollToCaret]\<rparr>"
| "thenScroll (s, Pending n) = s\<lparr>scrolls := scrolls s @ [n]\<rparr>"

definition focus :: "editor \<Rightarrow> editor" where
  "focus s = s\<lparr>trace := trace s @ [FocusInput]\<rparr>"

text \<open>
  \<open>utils/is-editable\<close> is not part of the sources at hand and the specification does not
  describe it: \<open>insert\<close> takes it as a parameter, a predicate on the store and the
  position.
\<close>

definition place :: "ref \<Rightarrow> editor \<Rightarrow> error + dom" where
  "place el s =
     (case position s of
        None \<Rightarrow> Inr (prependElement (value s) el (store s))
      | Some p \<Rightarrow>
          (let t = lcc (tagName (store s ! p)) in
           if t = ''mrow'' then Inr (prependElement p el (store s))
           else if t = ''math'' then Inr (appendElement (value s) [el] (store s))
           else appendElementAfter p el (store s)))"

text \<open>
  A call either returns, with the editor's new state, or throws: \<open>Inl (e, s)\<close> is the
  exception \<open>e\<close> thrown with the editor left in state \<open>s\<close>.
\<close>

type_synonym outcome = "(error \<times> editor) + editor"

definition insert_elem ::
  "(dom \<Rightarrow> ref option \<Rightarrow> bool) \<Rightarrow> ref \<Rightarrow> ref option \<Rightarrow> editor \<Rightarrow> outcome" where
  "insert_elem isEditable el moveTo s =
     (if readonly s \<and> \<not> isEditable (store s) (position s) then Inr s
      else (case place el s of
              Inl e \<Rightarrow> Inl (e, s)
            | Inr h \<Rightarrow>
                Inr (thenScroll (update (focus
                  (s\<lparr>store := h,
                     position := Some (case moveTo of None \<Rightarrow> el | Some m \<Rightarrow> m)\<rparr>))))))"

definition newline :: "(dom \<Rightarrow> ref option \<Rightarrow> bool) \<Rightarrow> editor \<Rightarrow> outcome" where
  "newline isEditable s =
     (case createElement ''mspace'' [(''linebreak'', ''newline'')] (store s) of
        (mspace, h) \<Rightarrow> insert_elem isEditable mspace None (s\<lparr>store := h\<rparr>))"

definition insertNewline :: "(dom \<Rightarrow> ref option \<Rightarrow> bool) \<Rightarrow> editor \<Rightarrow> outcome" where
  "insertNewline isEditable s =
     (if \<not> allowNewlines s then Inr s
      else (case position s of
              None \<Rightarrow> newline isEditable s
            | Some p \<Rightarrow>
                if lcc2 (tagName (store s ! p)) ''math'' then newline isEditable s
                else (case parentNode (store s ! p) of
                        None \<Rightarrow> Inl (TypeError, s)
                      | Some q \<Rightarrow>
                          if lcc2 (tagName (store s ! q)) ''math'' then newline isEditable s
                          else Inr s)))"

subsection \<open>Reading and replacing the value\<close>

text \<open>
  A tree of elements as a value, without identity: what a markup string denotes, and what
  two structurally equal trees of the store have in common. \<open>reify n h r\<close> reads the tree
  at \<open>r\<close> from the store, descending at most \<open>n\<close> levels; \<open>flatten m par b\<close> is the list
  of new elements, in document order, that make a tree \<open>m\<close> under the parent \<open>par\<close> when
  they are appended to a store of length \<open>b\<close>.
\<close>

datatype markup = Markup nat string "(string \<times> string) list" "markup list"

primrec reify :: "nat \<Rightarrow> dom \<Rightarrow> ref \<Rightarrow> markup option" where
  "reify 0 h r = None"
| "reify (Suc n) h r =
     (if r < length h
      then map_option (Markup (nodeType (h ! r)) (tagName (h ! r)) (attributes (h ! r)))
             (those (map (reify n h) (childNodes (h ! r))))
      else None)"

fun count :: "markup \<Rightarrow> nat" where
  "count (Markup t tag as cs) = Suc (sum_list (map count cs))"

fun height :: "markup \<Rightarrow> nat" where
  "height (Markup t tag as cs) = Suc (fold max (map height cs) 0)"

fun childRefs :: "markup list \<Rightarrow> ref \<Rightarrow> ref list" where
  "childRefs [] b = []"
| "childRefs (c # cs) b = b # childRefs cs (b + count c)"

fun flatten :: "markup \<Rightarrow> ref option \<Rightarrow> ref \<Rightarrow> node list"
  and flattens :: "markup list \<Rightarrow> ref \<Rightarrow> ref \<Rightarrow> node list" where
  "flatten (Markup t tag as cs) par b =
     \<lparr>nodeType = t, tagName = tag, attributes = as,
      childNodes = childRefs cs (Suc b), parentNode = par\<rparr> # flattens cs b (Suc b)"
| "flattens [] p b = []"
| "flattens (c # cs) p b = flatten c (Some p) b @ flattens cs p (b + count c)"

text \<open>
  Modelled from the spec: \<open>utils/get-clean-copy\<close> is not part of the sources at hand.
  It returns a deep, independent copy of the tree at an element: new elements that make
  the same tree, attached nowhere. The tree is read from the store within \<open>n\<close> levels;
  there is no copy (\<open>None\<close>) of what does not end within them.
\<close>

definition getCleanCopy :: "nat \<Rightarrow> ref \<Rightarrow> dom \<Rightarrow> (ref \<times> dom) option" where
  "getCleanCopy n r h =
     map_option (\<lambda>m. (length h, h @ flatten m None (length h))) (reify n h r)"

definition getValue :: "nat \<Rightarrow> editor \<Rightarrow> (ref \<times> editor) option" where
  "getValue n s =
     map_option (\<lambda>(c, h). (c, s\<lparr>store := h\<rparr>)) (getCleanCopy n (value s) (store s))"

text \<open>
  What may be passed to \<open>setValue\<close>: a string, an element of the store, \<open>null\<close> or
  \<open>undefined\<close>, or any other value (which has no \<open>nodeType\<close>). \<open>utils/to-dom\<close> is not
  part of the sources at hand: \<open>setValue\<close> takes the parser as a parameter, from the
  string to the tree it denotes, if any; the elements of that tree are new in the store.
\<close>

datatype jsvalue = JString string | JNode ref | JNull | JOther

definition toElement :: "(string \<Rightarrow> markup option) \<Rightarrow> jsvalue \<Rightarrow> dom \<Rightarrow> jsvalue \<times> dom" where
  "toElement toDom v h =
     (case v of
        JString str \<Rightarrow>
          (case toDom str of
             None \<Rightarrow> (JNull, h)
           | Some m \<Rightarrow> (JNode (length h), h @ flatten m None (length h)))
      | _ \<Rightarrow> (v, h))"

definition isMath :: "dom \<Rightarrow> ref \<Rightarrow> bool" where
  "isMath h r = (nodeType (h ! r) = 1 \<and> lcc2 (tagName (h ! r)) ''math'')"

definition setValue :: "(string \<Rightarrow> markup option) \<Rightarrow> jsvalue \<Rightarrow> editor \<Rightarrow> outcome" where
  "setValue toDom v s =
     (case toElement toDom v (store s) of
        (JNode r, h) \<Rightarrow>
          if \<not> isMath h r then Inl (InvalidValue, s\<lparr>store := h\<rparr>)
          else Inr (fst (update (s\<lparr>store := h, value := r, position := None\<rparr>)))
      | (JNull, h) \<Rightarrow> Inl (TypeError, s\<lparr>store := h\<rparr>)
      | (_, h) \<Rightarrow> Inl (InvalidValue, s\<lparr>store := h\<rparr>))"

subsection \<open>Construction and teardown\<close>

text \<open>
  The constructor makes the empty \<open>math\<close> root, registers its ten listeners and asks for
  the element jax. \<open>jaxReady\<close> is the completion of that request: it stores the jax and
  calls \<open>update\<close>. A renderer that fails to initialise never completes it.
\<close>

definition newEditor :: "string option \<Rightarrow> bool \<Rightarrow> bool \<Rightarrow> editor" where
  "newEditor ph allowNl ro =
     (case createElement ''math'' [] [] of
        (root, h) \<Rightarrow>
          \<lparr>store = h, value = root, position = None, inputValue = [], elValue = None,
           focused = False, mouseAtDisplay = False, elementJax = False,
           placeholder = (case ph of None \<Rightarrow> ''Start typing...'' | Some [] \<Rightarrow> ''Start typing...'' | Some p \<Rightarrow> p),
           allowNewlines = allowNl, readonly = ro,
           listeners =
             [(Display, ''click'', HandleClick),
              (Input, ''keyup'', HandleInput),
              (Input, ''keydown'', HandleInput),
              (Input, ''keydown'', HandleKeydown),
              (Input, ''focus'', HandleFocus),
              (Input, ''blur'', HandleBlur),
              (Display, ''mouseenter'', HandleMouseenter),
              (Display, ''mouseleave'', HandleMouseleave),
              (Display, ''scroll'', HandleResize),
              (Window, ''resize'', HandleResize)],
           mounted = True, blinkerState = Blinking, issued = 0, inflight = [],
           scrolls = [], trace = []\<rparr>)"

definition jaxReady :: "editor \<Rightarrow> editor" where
  "jaxReady s = fst (update (s\<lparr>elementJax := True\<rparr>))"

text \<open>
  Modelled from the spec: \<open>Blinker\<close> is not part of the sources at hand. Its \<open>destroy\<close>
  cancels all pending timers, from any state.
\<close>

definition blinkerDestroy :: "blinker \<Rightarrow> blinker" where
  "blinkerDestroy b = Stopped"

definition destroy :: "editor \<Rightarrow> editor" where
  "destroy s =
     s\<lparr>blinkerState := blinkerDestroy (blinkerState s),
       mounted := False,
       listeners := remove1 (Window, ''resize'', HandleResize) (listeners s),
       trace := trace s @ [BlinkerDestroy, RemoveContainer]\<rparr>"

subsection \<open>Removal\<close>

text \<open>
  Modelled from the spec: \<open>utils/apply-backspace\<close> and \<open>utils/apply-delete\<close> are not part
  of the sources at hand. A position is "none", the start of the document, or an element,
  and the caret sits immediately after that element among its siblings. Backspace removes
  the element of the position; when that empties its parent, and the parent is neither the
  root nor a slot its own parent requires, the parent is removed in the same way; the new
  position is what is then immediately before the caret: the previous sibling of the
  removed element or, where it was the first one, the start of its container ("none" for
  the root). Delete removes the element immediately after the caret and leaves the
  position as it is. Where there is nothing to remove, both return the tree and the
  position they were given: at "none", at the document root, and at an element that is
  in no child list. Which kinds of container are required slots is a parameter.
\<close>

fun previousSibling :: "ref \<Rightarrow> ref list \<Rightarrow> ref option" where
  "previousSibling r (x # y # xs) = (if y = r then Some x else previousSibling r (y # xs))"
| "previousSibling r xs = None"

fun nextSibling :: "ref \<Rightarrow> ref list \<Rightarrow> ref option" where
  "nextSibling r (x # y # xs) = (if x = r then Some y else nextSibling r (y # xs))"
| "nextSibling r xs = None"

definition attached :: "dom \<Rightarrow> nat" where
  "attached h = length (filter (\<lambda>x. x \<noteq> None) (map parentNode h))"

function applyBackspace ::
  "(string \<Rightarrow> bool) \<Rightarrow> dom \<Rightarrow> ref \<Rightarrow> ref option \<Rightarrow> dom \<times> ref option" where
  "applyBackspace required h root None = (h, None)"
| "applyBackspace required h root (Some p) =
     (if length h \<le> p \<or> p = root then (h, Some p)
      else (case parentNode (h ! p) of
              None \<Rightarrow> (h, Some p)
            | Some q \<Rightarrow>
                (case previousSibling p (childNodes (h ! q)) of
                   Some x \<Rightarrow> (detach p h, Some x)
                 | None \<Rightarrow>
                     if childNodes (detach p h ! q) = [] \<and> q \<noteq> root
                        \<and> \<not> required (tagName (h ! q))
                     then applyBackspace required (detach p h) root (Some q)
                     else (detach p h, if q = root then None else Some q))))"
  by pat_completeness auto
termination
proof (relation "measure (\<lambda>(required, h, root, pos). attached h)")
  show "wf (measure (\<lambda>(required, h, root, pos). attached h))"
    by simp
next
  fix required :: "string \<Rightarrow> bool" and h :: dom and root p q :: ref
  assume "\<not> (length h \<le> p \<or> p = root)" and par: "parentNode (h ! p) = Some q"
  then have p: "p < length h"
    by simp
  let ?g = "h[q := (h ! q)\<lparr>childNodes := remove1 p (childNodes (h ! q))\<rparr>]"
  have same: "map parentNode ?g = map parentNode h"
  proof (cases "q < length h")
    case True
    then show ?thesis by (simp add: map_update list_update_same_conv)
  next
    case False
    then have "length h \<le> q" by simp
    then show ?thesis by (simp only: list_update_beyond)
  qed
  have upd: "map parentNode (detach p h) = (map parentNode h)[p := None]"
    using par same by (simp add: detach_def map_update)
  have split1: "map parentNode h = take p (map parentNode h) @ Some q # drop (Suc p) (map parentNode h)"
    using p par by (metis id_take_nth_drop length_map nth_map)
  have split2: "(map parentNode h)[p := None] = take p (map parentNode h) @ None # drop (Suc p) (map parentNode h)"
    using p by (simp add: upd_conv_take_nth_drop)
  have "attached (detach p h) < attached h"
    unfolding attached_def upd
    by (subst split2, subst (2) split1) simp
  then show "((required, detach p h, root, Some q), (required, h, root, Some p))
      \<in> measure (\<lambda>(required, h, root, pos). attached h)"
    by simp
qed

definition applyDelete :: "dom \<Rightarrow> ref \<Rightarrow> ref option \<Rightarrow> dom \<times> ref option" where
  "applyDelete h root pos =
     (case pos of
        None \<Rightarrow>
          (case childNodes (h ! root) of
             [] \<Rightarrow> (h, None)
           | c # cs \<Rightarrow> (detach c h, None))
      | Some p \<Rightarrow>
          (case parentNode (h ! p) of
             None \<Rightarrow> (h, Some p)
           | Some q \<Rightarrow>
               (case nextSibling p (childNodes (h ! q)) of
                  None \<Rightarrow> (h, Some p)
                | Some x \<Rightarrow> (detach x h, Some p))))"

definition backspaceRemove :: "(string \<Rightarrow> bool) \<Rightarrow> editor \<Rightarrow> editor" where
  "backspaceRemove required s =
     (case applyBackspace required (store s) (value s) (position s) of
        (h, pos) \<Rightarrow> thenScroll (update (s\<lparr>store := h, position := pos\<rparr>)))"

definition deleteRemove :: "editor \<Rightarrow> editor" where
  "deleteRemove s =
     (case applyDelete (store s) (value s) (position s) of
        (h, pos) \<Rightarrow> thenScroll (update (s\<lparr>store := h, position := pos\<rparr>)))"

subsection \<open>Outcomes and example editors\<close>

definition threw :: "outcome \<Rightarrow> bool" where
  "threw r = (case r of Inl x \<Rightarrow> True | Inr s \<Rightarrow> False)"

definition stateOf :: "outcome \<Rightarrow> editor" where
  "stateOf r = (case r of Inl x \<Rightarrow> snd x | Inr s \<Rightarrow> s)"

definition neverEditable :: "dom \<Rightarrow> ref option \<Rightarrow> bool" where
  "neverEditable h pos = False"

definition alwaysEditable :: "dom \<Rightarrow> ref option \<Rightarrow> bool" where
  "alwaysEditable h pos = True"

definition element :: "string \<Rightarrow> ref list \<Rightarrow> ref option \<Rightarrow> node" where
  "element tag cs par =
     \<lparr>nodeType = 1, tagName = tag, attributes = [], childNodes = cs, parentNode = par\<rparr>"

text \<open>
  A document \<open>math[mi, mo]\<close> with the cursor after \<open>mi\<close>, and a new \<open>mn\<close> attached
  nowhere; the same in a readonly editor.
\<close>

definition docTwo :: editor where
  "docTwo =
     (newEditor None True False)
       \<lparr>store := [element ''math'' [1, 2] None, element ''mi'' [] (Some 0),
                  element ''mo'' [] (Some 0), element ''mn'' [] None],
        position := Some 1\<rparr>"

definition docReadonly :: editor where
  "docReadonly = docTwo\<lparr>readonly := True\<rparr>"

text \<open>The value, once parsed if it is a string, is an element with the tag \<open>math\<close>.\<close>

definition acceptable :: "(string \<Rightarrow> markup option) \<Rightarrow> jsvalue \<Rightarrow> dom \<Rightarrow> bool" where
  "acceptable toDom v h =
     (case toElement toDom v h of (JNode r, h') \<Rightarrow> isMath h' r | _ \<Rightarrow> False)"

text \<open>Two calls to \<open>update\<close> in sequence, the tree changing to \<open>h\<close> between them.\<close>

definition firstCall :: "editor \<Rightarrow> editor" where
  "firstCall s = fst (update s)"

definition secondCall :: "dom \<Rightarrow> editor \<Rightarrow> editor" where
  "secondCall h s = fst (update ((firstCall s)\<lparr>store := h\<rparr>))"

text \<open>A parser that knows two strings.\<close>

definition parseExample :: "string \<Rightarrow> markup option" where
  "parseExample str =
     (if str = ''<math><mi/></math>'' then Some (Markup 1 ''math'' [] [Markup 1 ''mi'' [] []])
      else if str = ''<mi/>'' then Some (Markup 1 ''mi'' [] [])
      else None)"

text \<open>An editor just constructed whose element jax has arrived, before any call.\<close>

definition readyEditor :: editor where
  "readyEditor = (newEditor None True False)\<lparr>elementJax := True\<rparr>"

text \<open>The \<open>mspace\<close> element of a line break, under a given parent.\<close>

definition mspaceNewline :: "ref option \<Rightarrow> node" where
  "mspaceNewline par =
     \<lparr>nodeType = 1, tagName = ''mspace'', attributes = [(''linebreak'', ''newline'')],
      childNodes = [], parentNode = par\<rparr>"

text \<open>The empty document and the document \<open>math[mspace]\<close>, as submitted to the renderer.\<close>

definition snapEmpty :: snapshot where
  "snapEmpty = ([element ''math'' [] None], 0)"

definition snapNewline :: snapshot where
  "snapNewline = ([element ''math'' [1] None, mspaceNewline (Some 0)], 0)"

text \<open>
  An editor whose element jax has arrived (call 0 of \<open>update\<close>) and into which a
  newline was inserted at once (call 1).
\<close>

definition twoInFlight :: editor where
  "twoInFlight = stateOf (insertNewline alwaysEditable (jaxReady (newEditor None True False)))"

text \<open>The tree of the document \<open>math[mi, mo]\<close>.\<close>

definition docTwoMarkup :: markup where
  "docTwoMarkup = Markup 1 ''math'' [] [Markup 1 ''mi'' [] [], Markup 1 ''mo'' [] []]"

text \<open>
  What an insertion never changes: the tag and the attributes of every element of the
  store.
\<close>

definition labels :: "dom \<Rightarrow> (string \<times> (string \<times> string) list) list" where
  "labels h = map (\<lambda>n. (tagName n, attributes n)) h"

section \<open>Properties\<close>

subsection \<open>Placing an element\<close>

lemma detach_detached: "parentNode (h ! el) = None \<Longrightarrow> detach el h = h"
  by (simp add: detach_def)

lemma attach_children:
  "p < length h \<Longrightarrow> el < length h \<Longrightarrow> el \<noteq> p \<Longrightarrow>
   childNodes (attach p cs el h ! p) = cs \<and> parentNode (attach p cs el h ! el) = Some p"
  by (simp add: attach_def)

lemma prependElement_new:
  "p < length h \<Longrightarrow> el < length h \<Longrightarrow> el \<noteq> p \<Longrightarrow> parentNode (h ! el) = None \<Longrightarrow>
   childNodes (prependElement p el h ! p) = el # childNodes (h ! p)
   \<and> parentNode (prependElement p el h ! el) = Some p"
  by (simp add: prependElement_def detach_detached attach_children)

lemma appendElement_new:
  "p < length h \<Longrightarrow> el < length h \<Longrightarrow> el \<noteq> p \<Longrightarrow> parentNode (h ! el) = None \<Longrightarrow>
   childNodes (appendElement p [el] h ! p) = childNodes (h ! p) @ [el]
   \<and> parentNode (appendElement p [el] h ! el) = Some p"
  by (simp add: appendElement_def appendChild_def detach_detached attach_children)

lemma insertAfter_split:
  "r \<notin> set xs \<Longrightarrow> insertAfter r el (xs @ r # ys) = xs @ r # el # ys"
  by (induction xs) auto

lemma appendElementAfter_new:
  "parentNode (h ! r) = Some q \<Longrightarrow> q < length h \<Longrightarrow> el < length h \<Longrightarrow> el \<noteq> q \<Longrightarrow>
   parentNode (h ! el) = None \<Longrightarrow>
   \<exists>h'. appendElementAfter r el h = Inr h'
     \<and> childNodes (h' ! q) = insertAfter r el (childNodes (h ! q))
     \<and> parentNode (h' ! el) = Some q"
  by (simp add: appendElementAfter_def detach_detached attach_children)

lemma thenScroll_update_frame:
  "store (thenScroll (update s)) = store s \<and> position (thenScroll (update s)) = position s
   \<and> value (thenScroll (update s)) = value s"
  by (simp add: update_def Let_def)

lemma insert_elem_result:
  "\<not> (readonly s \<and> \<not> isEditable (store s) (position s)) \<Longrightarrow> place el s = Inr h \<Longrightarrow>
   \<exists>s'. insert_elem isEditable el moveTo s = Inr s' \<and> store s' = h
     \<and> position s' = Some (case moveTo of None \<Rightarrow> el | Some m \<Rightarrow> m) \<and> value s' = value s"
  by (auto simp add: insert_elem_def thenScroll_update_frame focus_def)

lemma insert_elem_places:
  assumes guard: "\<not> (readonly s \<and> \<not> isEditable (store s) (position s))"
    and el: "el < length (store s)" "parentNode (store s ! el) = None" "el \<noteq> value s"
    and root: "value s < length (store s)"
    and pos: "\<forall>p. position s = Some p \<longrightarrow> p < length (store s) \<and> p \<noteq> el"
    and par: "\<forall>p. position s = Some p \<and> lcc (tagName (store s ! p)) \<noteq> ''mrow''
                \<and> lcc (tagName (store s ! p)) \<noteq> ''math''
              \<longrightarrow> (\<exists>q. parentNode (store s ! p) = Some q \<and> q < length (store s) \<and> q \<noteq> el)"
  shows "\<exists>s'. insert_elem isEditable el moveTo s = Inr s'
     \<and> position s' = Some (case moveTo of None \<Rightarrow> el | Some m \<Rightarrow> m)
     \<and> (case position s of
          None \<Rightarrow>
            childNodes (store s' ! value s) = el # childNodes (store s ! value s)
            \<and> parentNode (store s' ! el) = Some (value s)
        | Some p \<Rightarrow>
            if lcc (tagName (store s ! p)) = ''mrow''
            then childNodes (store s' ! p) = el # childNodes (store s ! p)
                 \<and> parentNode (store s' ! el) = Some p
            else if lcc (tagName (store s ! p)) = ''math''
            then childNodes (store s' ! value s) = childNodes (store s ! value s) @ [el]
                 \<and> parentNode (store s' ! el) = Some (value s)
            else (\<exists>q. parentNode (store s ! p) = Some q \<and> parentNode (store s' ! el) = Some q
                   \<and> (\<forall>xs ys. childNodes (store s ! q) = xs @ p # ys \<and> p \<notin> set xs
                        \<longrightarrow> childNodes (store s' ! q) = xs @ p # el # ys)))"
proof (cases "position s")
  case None
  then have "place el s = Inr (prependElement (value s) el (store s))"
    by (simp add: place_def)
  from insert_elem_result [where isEditable = isEditable and moveTo = moveTo, OF guard this]
  obtain s' where
    "insert_elem isEditable el moveTo s = Inr s'"
    "store s' = prependElement (value s) el (store s)"
    "position s' = Some (case moveTo of None \<Rightarrow> el | Some m \<Rightarrow> m)"
    by blast
  then show ?thesis
    using None prependElement_new [OF root el(1) el(3) el(2)] by simp
next
  case (Some p)
  with pos have p: "p < length (store s)" "p \<noteq> el" by auto
  consider (mrow) "lcc (tagName (store s ! p)) = ''mrow''"
    | (math) "lcc (tagName (store s ! p)) \<noteq> ''mrow''" "lcc (tagName (store s ! p)) = ''math''"
    | (other) "lcc (tagName (store s ! p)) \<noteq> ''mrow''" "lcc (tagName (store s ! p)) \<noteq> ''math''"
    by blast
  then show ?thesis
  proof cases
    case mrow
    with Some have "place el s = Inr (prependElement p el (store s))"
      by (simp add: place_def)
    from insert_elem_result [where isEditable = isEditable and moveTo = moveTo, OF guard this]
    obtain s' where
      "insert_elem isEditable el moveTo s = Inr s'" "store s' = prependElement p el (store s)"
      "position s' = Some (case moveTo of None \<Rightarrow> el | Some m \<Rightarrow> m)"
      by blast
    then show ?thesis
      using Some mrow prependElement_new [OF p(1) el(1) p(2)[symmetric] el(2)] by simp
  next
    case math
    with Some have "place el s = Inr (appendElement (value s) [el] (store s))"
      by (simp add: place_def)
    from insert_elem_result [where isEditable = isEditable and moveTo = moveTo, OF guard this]
    obtain s' where
      "insert_elem isEditable el moveTo s = Inr s'"
      "store s' = appendElement (value s) [el] (store s)"
      "position s' = Some (case moveTo of None \<Rightarrow> el | Some m \<Rightarrow> m)"
      by blast
    then show ?thesis
      using Some math appendElement_new [OF root el(1) el(3) el(2)] by simp
  next
    case other
    with Some par obtain q where
      q: "parentNode (store s ! p) = Some q" "q < length (store s)" "q \<noteq> el"
      by blast
    from appendElementAfter_new [OF q(1) q(2) el(1) q(3)[symmetric] el(2)] obtain h' where
      h': "appendElementAfter p el (store s) = Inr h'"
      "childNodes (h' ! q) = insertAfter p el (childNodes (store s ! q))"
      "parentNode (h' ! el) = Some q"
      by blast
    with Some other have "place el s = Inr h'"
      by (simp add: place_def)
    from insert_elem_result [where isEditable = isEditable and moveTo = moveTo, OF guard this]
    obtain s' where
      "insert_elem isEditable el moveTo s = Inr s'" "store s' = h'"
      "position s' = Some (case moveTo of None \<Rightarrow> el | Some m \<Rightarrow> m)"
      by blast
    then show ?thesis
      using Some other q(1) h'(2,3) by (simp add: insertAfter_split)
  qed
qed

lemma labels_update:
  assumes "tagName v = tagName (h ! i)" and "attributes v = attributes (h ! i)"
  shows "labels (h[i := v]) = labels h"
proof (cases "i < length h")
  case True
  have "labels (h[i := v]) = (labels h)[i := (tagName v, attributes v)]"
    by (simp add: labels_def map_update)
  also have "\<dots> = (labels h)[i := labels h ! i]"
    using True assms by (simp add: labels_def)
  also have "\<dots> = labels h"
    by (rule list_update_id)
  finally show ?thesis .
next
  case False
  then have "length h \<le> i" by simp
  then show ?thesis by (simp only: list_update_beyond)
qed

lemma labels_nth:
  assumes "labels h' = labels h" and "x < length h"
  shows "length h' = length h" and "tagName (h' ! x) = tagName (h ! x)"
    and "attributes (h' ! x) = attributes (h ! x)"
proof -
  from assms(1) show len: "length h' = length h"
    unfolding labels_def by (rule map_eq_imp_length_eq)
  from assms(1) have "labels h' ! x = labels h ! x" by simp
  with assms(2) len show "tagName (h' ! x) = tagName (h ! x)"
    and "attributes (h' ! x) = attributes (h ! x)"
    by (simp_all add: labels_def)
qed

lemma detach_labels: "labels (detach el h) = labels h"
proof (cases "parentNode (h ! el)")
  case None
  then show ?thesis by (simp add: detach_def)
next
  case (Some q)
  let ?h1 = "h[q := (h ! q)\<lparr>childNodes := remove1 el (childNodes (h ! q))\<rparr>]"
  have "labels (?h1[el := (?h1 ! el)\<lparr>parentNode := None\<rparr>]) = labels ?h1"
    by (rule labels_update) simp_all
  also have "\<dots> = labels h"
    by (rule labels_update) simp_all
  finally show ?thesis
    using Some by (simp add: detach_def)
qed

lemma attach_labels: "labels (attach p cs el h) = labels h"
proof -
  let ?h1 = "h[p := (h ! p)\<lparr>childNodes := cs\<rparr>]"
  have "labels (?h1[el := (?h1 ! el)\<lparr>parentNode := Some p\<rparr>]) = labels ?h1"
    by (rule labels_update) simp_all
  also have "\<dots> = labels h"
    by (rule labels_update) simp_all
  finally show ?thesis
    by (simp add: attach_def)
qed

lemma place_labels: "place el s = Inr h \<Longrightarrow> labels h = labels (store s)"
  by (auto simp add: place_def prependElement_def appendElement_def appendChild_def
      appendElementAfter_def detach_labels attach_labels Let_def
      split: option.splits if_splits)

lemma insert_elem_labels:
  "insert_elem isEditable el moveTo s = Inr s' \<Longrightarrow> labels (store s') = labels (store s)"
  by (auto simp add: insert_elem_def thenScroll_update_frame focus_def place_labels
      split: if_splits sum.splits)

lemma newline_eq:
  "newline isEditable s =
     insert_elem isEditable (length (store s)) None (s\<lparr>store := store s @ [mspaceNewline None]\<rparr>)"
  by (simp add: newline_def createElement_def mspaceNewline_def)

subsection \<open>Parsing\<close>

lemma toElement_extends: "\<exists>ext. snd (toElement toDom v h) = h @ ext"
  by (simp add: toElement_def split: jsvalue.split option.split)

subsection \<open>Reading a tree back from the store\<close>

lemma those_eq_Some: "those xs = Some ys \<longleftrightarrow> xs = map Some ys"
  by (induction xs arbitrary: ys) (auto split: option.splits)

lemma length_flatten:
  "length (flatten m par b) = count m"
  "length (flattens cs p b) = sum_list (map count cs)"
  by (induction m par b and cs p b rule: flatten_flattens.induct) simp_all

lemma reify_append:
  "reify n h r = Some m \<Longrightarrow> reify n (h @ ext) r = Some m"
proof (induction n arbitrary: r m)
  case 0
  then show ?case by simp
next
  case (Suc n)
  from Suc.prems have r: "r < length h"
    by (simp split: if_splits)
  with Suc.prems obtain cs where
    cs: "those (map (reify n h) (childNodes (h ! r))) = Some cs"
    and m: "m = Markup (nodeType (h ! r)) (tagName (h ! r)) (attributes (h ! r)) cs"
    by auto
  from cs have "map (reify n h) (childNodes (h ! r)) = map Some cs"
    by (simp add: those_eq_Some)
  then have "list_all2 (\<lambda>c m'. reify n h c = Some m') (childNodes (h ! r)) cs"
    by (simp add: list_all2_conv_all_nth list_eq_iff_nth_eq)
  then have "list_all2 (\<lambda>c m'. reify n (h @ ext) c = Some m') (childNodes (h ! r)) cs"
    by (rule list_all2_mono) (rule Suc.IH)
  then have "map (reify n (h @ ext)) (childNodes (h ! r)) = map Some cs"
    by (simp add: list_all2_conv_all_nth list_eq_iff_nth_eq)
  then have "those (map (reify n (h @ ext)) (childNodes (h ! r))) = Some cs"
    by (simp add: those_eq_Some)
  with r m show ?case
    by (simp add: nth_append)
qed

lemma reify_children:
  assumes "\<And>c pre suf par. c \<in> set cs \<Longrightarrow>
             reify n (pre @ flatten c par (length pre) @ suf) (length pre) = Some c"
  shows "map (reify n (pre @ flattens cs p (length pre) @ suf)) (childRefs cs (length pre))
           = map Some cs"
  using assms
proof (induction cs arbitrary: pre suf)
  case Nil
  then show ?case by simp
next
  case (Cons c cs)
  let ?pre = "pre @ flatten c (Some p) (length pre)"
  have len: "length ?pre = length pre + count c"
    by (simp add: length_flatten)
  have whole: "pre @ flattens (c # cs) p (length pre) @ suf
                 = ?pre @ flattens cs p (length ?pre) @ suf"
    by (simp add: length_flatten)
  have first: "reify n (pre @ flattens (c # cs) p (length pre) @ suf) (length pre) = Some c"
  proof -
    have "c \<in> set (c # cs)" by simp
    then have "reify n (pre @ flatten c (Some p) (length pre)
                 @ (flattens cs p (length pre + count c) @ suf)) (length pre) = Some c"
      by (rule Cons.prems)
    then show ?thesis by simp
  qed
  have "map (reify n (?pre @ flattens cs p (length ?pre) @ suf)) (childRefs cs (length ?pre))
          = map Some cs"
    by (rule Cons.IH) (simp add: Cons.prems)
  then have rest: "map (reify n (pre @ flattens (c # cs) p (length pre) @ suf))
                     (childRefs cs (length pre + count c)) = map Some cs"
    by (simp only: whole len)
  from first rest show ?case
    by simp
qed

lemma reify_flatten:
  "reify n h r = Some m \<Longrightarrow>
   reify n (pre @ flatten m par (length pre) @ suf) (length pre) = Some m"
proof (induction n arbitrary: h r m pre suf par)
  case 0
  then show ?case by simp
next
  case (Suc n)
  from Suc.prems have r: "r < length h"
    by (simp split: if_splits)
  with Suc.prems obtain cs where
    cs: "those (map (reify n h) (childNodes (h ! r))) = Some cs"
    and m: "m = Markup (nodeType (h ! r)) (tagName (h ! r)) (attributes (h ! r)) cs"
    by auto
  from cs have eq: "map (reify n h) (childNodes (h ! r)) = map Some cs"
    by (simp add: those_eq_Some)
  have each: "reify n (pre' @ flatten c par' (length pre') @ suf') (length pre') = Some c"
    if "c \<in> set cs" for c pre' suf' par'
  proof -
    from that obtain i where i: "i < length cs" "cs ! i = c"
      by (auto simp add: in_set_conv_nth)
    from eq have "length (childNodes (h ! r)) = length cs"
      by (metis length_map)
    with eq i have "reify n h (childNodes (h ! r) ! i) = Some c"
      by (metis nth_map)
    then show ?thesis
      by (rule Suc.IH)
  qed
  let ?H = "pre @ flatten m par (length pre) @ suf"
  let ?node = "\<lparr>nodeType = nodeType (h ! r), tagName = tagName (h ! r),
                 attributes = attributes (h ! r),
                 childNodes = childRefs cs (Suc (length pre)), parentNode = par\<rparr>"
  have H: "?H = (pre @ [?node]) @ flattens cs (length pre) (length (pre @ [?node])) @ suf"
    by (simp add: m)
  have at: "?H ! length pre = ?node"
    by (simp add: m nth_append)
  have "map (reify n ?H) (childRefs cs (length (pre @ [?node]))) = map Some cs"
    unfolding H by (rule reify_children) (rule each)
  then have "those (map (reify n ?H) (childNodes (?H ! length pre))) = Some cs"
    by (simp add: at those_eq_Some)
  moreover have "length pre < length ?H"
    by (simp add: m)
  ultimately show ?case
    using at by (simp add: m del: flatten.simps append_assoc)
qed

text \<open>
  Every tree has a bound within which it is read back: its height.
\<close>

lemma fold_max_upper:
  fixes a :: nat
  shows "a \<le> fold max xs a" and "x \<in> set xs \<Longrightarrow> x \<le> fold max xs a"
proof (induction xs arbitrary: a)
  case Nil
  { case 1 show ?case by simp }
  { case 2 then show ?case by simp }
next
  case (Cons y ys)
  { case 1
    have "a \<le> max y a" by simp
    also have "\<dots> \<le> fold max ys (max y a)" by (rule Cons.IH(1))
    finally show ?case by simp }
  { case 2
    then consider "x = y" | "x \<in> set ys" by auto
    then show ?case
    proof cases
      case 1
      have "y \<le> max y a" by simp
      also have "\<dots> \<le> fold max ys (max y a)" by (rule Cons.IH(1))
      finally show ?thesis using 1 by simp
    next
      case 2
      then show ?thesis using Cons.IH(2) by simp
    qed }
qed

lemma reify_flatten_height:
  "height m \<le> n \<Longrightarrow> reify n (pre @ flatten m par (length pre) @ suf) (length pre) = Some m"
proof (induction m arbitrary: n pre par suf)
  case (Markup t tag as cs)
  from Markup.prems obtain k where n: "n = Suc k" and k: "fold max (map height cs) 0 \<le> k"
    by (cases n) auto
  have each: "reify k (pre' @ flatten c par' (length pre') @ suf') (length pre') = Some c"
    if "c \<in> set cs" for c pre' suf' par'
  proof -
    from that have "height c \<le> fold max (map height cs) 0"
      by (intro fold_max_upper(2)) simp
    with k have "height c \<le> k" by simp
    with that show ?thesis by (rule Markup.IH)
  qed
  let ?H = "pre @ flatten (Markup t tag as cs) par (length pre) @ suf"
  let ?node = "\<lparr>nodeType = t, tagName = tag, attributes = as,
                 childNodes = childRefs cs (Suc (length pre)), parentNode = par\<rparr>"
  have H: "?H = (pre @ [?node]) @ flattens cs (length pre) (length (pre @ [?node])) @ suf"
    by simp
  have at: "?H ! length pre = ?node"
    by (simp add: nth_append)
  have "map (reify k ?H) (childRefs cs (length (pre @ [?node]))) = map Some cs"
    unfolding H by (rule reify_children) (rule each)
  then have "those (map (reify k ?H) (childNodes (?H ! length pre))) = Some cs"
    by (simp add: at those_eq_Some)
  moreover have "length pre < length ?H"
    by simp
  ultimately show ?case
    using at by (simp add: n del: flatten.simps append_assoc)
qed

lemma reify_root:
  "reify n h r = Some m \<Longrightarrow>
   r < length h \<and> (\<exists>cs. m = Markup (nodeType (h ! r)) (tagName (h ! r)) (attributes (h ! r)) cs)"
  by (cases n) (auto split: if_splits)

lemma flatten_root:
  "(pre @ flatten (Markup t tag as cs) par (length pre) @ suf) ! length pre
     = \<lparr>nodeType = t, tagName = tag, attributes = as,
        childNodes = childRefs cs (Suc (length pre)), parentNode = par\<rparr>"
  by (simp add: nth_append)

subsection \<open>The input buffer\<close>

lemma dropWhile_all: "list_all P xs \<Longrightarrow> dropWhile P (xs @ ys) = dropWhile P ys"
  by (induction xs) auto

lemma dropWhile_hd: "xs \<noteq> [] \<Longrightarrow> \<not> P (hd xs) \<Longrightarrow> dropWhile P (xs @ ys) = xs @ ys"
  by (cases xs) auto

lemma trim_decomposed:
  assumes "list_all isWhiteSpace pre" and "list_all isWhiteSpace post"
    and "t = [] \<or> \<not> isWhiteSpace (hd t) \<and> \<not> isWhiteSpace (last t)"
  shows "trim (pre @ t @ post) = t"
proof (cases "t = []")
  case True
  have "dropWhile isWhiteSpace (pre @ post) = dropWhile isWhiteSpace post"
    using assms(1) by (rule dropWhile_all)
  moreover have "dropWhile isWhiteSpace post = []"
    using assms(2) by (simp only: dropWhile_eq_Nil_conv list_all_iff)
  ultimately have e: "dropWhile isWhiteSpace (pre @ post) = []"
    by simp
  have "trim (pre @ t @ post) = rev (dropWhile isWhiteSpace (rev (dropWhile isWhiteSpace (pre @ post))))"
    using True by (simp only: trim_def append_Nil)
  also have "\<dots> = []"
    by (simp only: e rev.simps(1) dropWhile.simps(1))
  finally show ?thesis
    using True by simp
next
  case False
  with assms(3) have ends: "\<not> isWhiteSpace (hd t)" "\<not> isWhiteSpace (last t)"
    by auto
  have "dropWhile isWhiteSpace (pre @ t @ post) = t @ post"
    using assms(1) False ends(1) by (simp add: dropWhile_all dropWhile_hd)
  moreover have "dropWhile isWhiteSpace (rev post @ rev t) = rev t"
  proof -
    have "list_all isWhiteSpace (rev post)"
      using assms(2) by (simp add: list_all_iff)
    then have "dropWhile isWhiteSpace (rev post @ rev t) = dropWhile isWhiteSpace (rev t @ [])"
      by (simp add: dropWhile_all)
    also have "\<dots> = rev t @ []"
      using False ends(2) by (intro dropWhile_hd) (simp_all add: hd_rev)
    finally show ?thesis by simp
  qed
  ultimately show ?thesis
    by (simp add: trim_def)
qed

lemma trim_decomposition:
  "\<exists>pre post. s = pre @ trim s @ post \<and> list_all isWhiteSpace pre \<and> list_all isWhiteSpace post
     \<and> (trim s = [] \<or> \<not> isWhiteSpace (hd (trim s)) \<and> \<not> isWhiteSpace (last (trim s)))"
proof -
  let ?d = "dropWhile isWhiteSpace s"
  let ?post = "rev (takeWhile isWhiteSpace (rev ?d))"
  have "rev (takeWhile isWhiteSpace (rev ?d) @ dropWhile isWhiteSpace (rev ?d)) = rev (rev ?d)"
    by (simp only: takeWhile_dropWhile_id)
  then have "rev (dropWhile isWhiteSpace (rev ?d)) @ ?post = ?d"
    by (simp only: rev_append rev_rev_ident)
  then have d: "?d = trim s @ ?post"
    by (simp add: trim_def)
  have s: "s = takeWhile isWhiteSpace s @ trim s @ ?post"
    using d by (metis takeWhile_dropWhile_id)
  have pre: "list_all isWhiteSpace (takeWhile isWhiteSpace s)"
    by (auto simp add: list_all_iff dest: set_takeWhileD)
  have post: "list_all isWhiteSpace ?post"
    by (auto simp add: list_all_iff dest: set_takeWhileD)
  have ends: "\<not> isWhiteSpace (hd (trim s)) \<and> \<not> isWhiteSpace (last (trim s))" if ne: "trim s \<noteq> []"
  proof -
    from ne d have dne: "?d \<noteq> []"
      by (metis Nil_is_append_conv)
    then have "\<not> isWhiteSpace (hd ?d)"
      by (rule hd_dropWhile)
    moreover have "hd ?d = hd (trim s)"
      using d ne by (metis hd_append2)
    moreover have "dropWhile isWhiteSpace (rev ?d) \<noteq> []"
      using ne by (simp add: trim_def)
    then have "\<not> isWhiteSpace (hd (dropWhile isWhiteSpace (rev ?d)))"
      by (rule hd_dropWhile)
    moreover have "last (trim s) = hd (dropWhile isWhiteSpace (rev ?d))"
      using ne by (simp add: trim_def last_rev)
    ultimately show ?thesis by simp
  qed
  from s pre post ends show ?thesis by blast
qed

lemma trim_empty_iff: "trim s = [] \<longleftrightarrow> list_all isWhiteSpace s"
proof
  assume e: "trim s = []"
  from trim_decomposition [of s] obtain pre post where
    "s = pre @ trim s @ post" "list_all isWhiteSpace pre" "list_all isWhiteSpace post"
    by blast
  with e have "s = pre @ post" by simp
  then show "list_all isWhiteSpace s"
    using \<open>list_all isWhiteSpace pre\<close> \<open>list_all isWhiteSpace post\<close> by (metis list_all_append)
next
  assume "list_all isWhiteSpace s"
  then have "trim ([] @ [] @ s) = []"
    by (intro trim_decomposed) simp_all
  then show "trim s = []" by simp
qed

lemma thenScroll_update_input: "inputValue (thenScroll (update s)) = inputValue s"
  by (simp add: update_def Let_def)

lemma stateOf_simps: "stateOf (Inr s) = s" "stateOf (Inl (e, s)) = s"
  by (simp_all add: stateOf_def)

lemma frame_input:
  "inputValue (stateOf (insert_elem isEditable el moveTo s)) = inputValue s"
  "inputValue (stateOf (insertNewline isEditable s)) = inputValue s"
  "inputValue (stateOf (setValue toDom v s)) = inputValue s"
  "inputValue (backspaceRemove required s) = inputValue s"
  "inputValue (deleteRemove s) = inputValue s"
  "inputValue (jaxReady s) = inputValue s"
proof -
  show ins: "inputValue (stateOf (insert_elem isEditable el moveTo s)) = inputValue s"
    for isEditable el moveTo s
    by (simp add: insert_elem_def stateOf_def thenScroll_update_input focus_def
        split: sum.split)
  have nl: "inputValue (stateOf (newline isEditable s)) = inputValue s"
    by (simp add: newline_def createElement_def ins)
  show "inputValue (stateOf (insertNewline isEditable s)) = inputValue s"
    by (simp add: insertNewline_def nl stateOf_simps split: option.split)
  show "inputValue (stateOf (setValue toDom v s)) = inputValue s"
    by (simp add: setValue_def toElement_def stateOf_def update_def Let_def
        split: jsvalue.split option.split)
  show "inputValue (backspaceRemove required s) = inputValue s"
    by (simp add: backspaceRemove_def thenScroll_update_input split: prod.split)
  show "inputValue (deleteRemove s) = inputValue s"
    by (simp add: deleteRemove_def thenScroll_update_input split: prod.split)
  show "inputValue (jaxReady s) = inputValue s"
    by (simp add: jaxReady_def update_def Let_def)
qed

subsection \<open>Siblings\<close>

lemma nextSibling_last: "p \<notin> set xs \<Longrightarrow> nextSibling p (xs @ [p]) = None"
proof (induction xs)
  case Nil
  then show ?case by simp
next
  case (Cons a xs)
  then show ?case by (cases xs) auto
qed

subsection \<open>Facts about the example editors\<close>

lemma lcc_examples:
  "lcc ''math'' = ''math''" "lcc ''mi'' = ''mi''" "lcc ''mo'' = ''mo''" "lcc ''mn'' = ''mn''"
  "lcc ''mspace'' = ''mspace''" "lcc ''mrow'' = ''mrow''"
  by (simp_all add: lcc_def lower_def)

lemma docTwo_facts:
  "store docTwo = [element ''math'' [1, 2] None, element ''mi'' [] (Some 0),
                   element ''mo'' [] (Some 0), element ''mn'' [] None]"
  "position docTwo = Some 1" "value docTwo = 0" "\<not> readonly docTwo"
  by (simp_all add: docTwo_def newEditor_def createElement_def)

lemma readyEditor_facts:
  "elementJax readyEditor" "inflight readyEditor = []" "issued readyEditor = 0"
  "scrolls readyEditor = []" "trace readyEditor = []"
  "store readyEditor = [element ''math'' [] None]" "value readyEditor = 0"
  by (simp_all add: readyEditor_def newEditor_def createElement_def element_def)

section \<open>The claims\<close>

text \<open>
  C1, as the code has it. Unless the editor is readonly and the position is not editable
  (then \<open>insert\<close> changes nothing, see C10), a call to \<open>insert\<close> with a new element,
  attached nowhere, returns with the cursor at \<open>moveTo\<close> when that is given and at the
  inserted element otherwise, and the element is placed by the kind of the position:
  with no position, first among the children of the document root; at an \<open>mrow\<close>, first
  among the children of that row; at a \<open>math\<close> element, last among the children of the
  document root; at any other element, immediately after it among the children of its
  parent.
\<close>

theorem insert_places_node:
  assumes guard: "\<not> (readonly s \<and> \<not> isEditable (store s) (position s))"
    and el: "el < length (store s)" "parentNode (store s ! el) = None" "el \<noteq> value s"
    and root: "value s < length (store s)"
    and pos: "\<forall>p. position s = Some p \<longrightarrow> p < length (store s) \<and> p \<noteq> el"
    and par: "\<forall>p. position s = Some p \<and> lcc (tagName (store s ! p)) \<noteq> ''mrow''
                \<and> lcc (tagName (store s ! p)) \<noteq> ''math''
              \<longrightarrow> (\<exists>q. parentNode (store s ! p) = Some q \<and> q < length (store s) \<and> q \<noteq> el)"
  shows "\<exists>s'. insert_elem isEditable el moveTo s = Inr s'
     \<and> position s' = Some (case moveTo of None \<Rightarrow> el | Some m \<Rightarrow> m)
     \<and> (case position s of
          None \<Rightarrow>
            childNodes (store s' ! value s) = el # childNodes (store s ! value s)
            \<and> parentNode (store s' ! el) = Some (value s)
        | Some p \<Rightarrow>
            if lcc (tagName (store s ! p)) = ''mrow''
            then childNodes (store s' ! p) = el # childNodes (store s ! p)
                 \<and> parentNode (store s' ! el) = Some p
            else if lcc (tagName (store s ! p)) = ''math''
            then childNodes (store s' ! value s) = childNodes (store s ! value s) @ [el]
                 \<and> parentNode (store s' ! el) = Some (value s)
            else (\<exists>q. parentNode (store s ! p) = Some q \<and> parentNode (store s' ! el) = Some q
                   \<and> (\<forall>xs ys. childNodes (store s ! q) = xs @ p # ys \<and> p \<notin> set xs
                        \<longrightarrow> childNodes (store s' ! q) = xs @ p # el # ys)))"
  using guard el root pos par by (rule insert_elem_places)

text \<open>
  In \<open>math[mi, mo]\<close> with the cursor after \<open>mi\<close>, inserting the new \<open>mn\<close> gives
  \<open>math[mi, mn, mo]\<close> with the cursor after \<open>mn\<close>.
\<close>

theorem insert_places_node_witness:
  "\<exists>s'. insert_elem alwaysEditable 3 None docTwo = Inr s' \<and> position s' = Some 3
     \<and> childNodes (store s' ! 0) = [1, 3, 2] \<and> parentNode (store s' ! 3) = Some 0"
proof -
  have facts:
    "store docTwo = [element ''math'' [1, 2] None, element ''mi'' [] (Some 0),
                     element ''mo'' [] (Some 0), element ''mn'' [] None]"
    "position docTwo = Some 1" "value docTwo = 0" "\<not> readonly docTwo"
    by (simp_all add: docTwo_def newEditor_def createElement_def)
  have tags: "lcc (tagName (store docTwo ! 1)) = ''mi''"
    by (simp add: facts element_def lcc_examples)
  from insert_places_node [of docTwo alwaysEditable 3 None]
  obtain s' where s': "insert_elem alwaysEditable 3 None docTwo = Inr s'"
    "position s' = Some 3"
    "\<exists>q. parentNode (store docTwo ! 1) = Some q \<and> parentNode (store s' ! 3) = Some q
       \<and> (\<forall>xs ys. childNodes (store docTwo ! q) = xs @ 1 # ys \<and> 1 \<notin> set xs
            \<longrightarrow> childNodes (store s' ! q) = xs @ 1 # 3 # ys)"
    by (auto simp add: facts tags element_def lcc_examples)
  then have par: "parentNode (store s' ! 3) = Some 0"
    and "\<forall>xs ys. childNodes (store docTwo ! 0) = xs @ 1 # ys \<and> 1 \<notin> set xs
            \<longrightarrow> childNodes (store s' ! 0) = xs @ 1 # 3 # ys"
    by (auto simp add: facts element_def)
  from this(2) have "childNodes (store docTwo ! 0) = [] @ 1 # [2] \<and> 1 \<notin> set ([]::nat list)
      \<longrightarrow> childNodes (store s' ! 0) = [] @ 1 # 3 # [2]"
    by blast
  then have "childNodes (store s' ! 0) = [1, 3, 2]"
    by (simp add: facts element_def)
  with s' par show ?thesis by blast
qed

text \<open>
  The claim as the specification words it fails in a readonly editor whose position is
  not editable: \<open>insert\<close> returns with the state it was given, so the new \<open>mn\<close> is
  placed nowhere and the cursor is not at it.
\<close>

theorem insert_always_places_counterexample:
  "insert_elem neverEditable 3 None docReadonly = Inr docReadonly
   \<and> position docReadonly = Some 1
   \<and> parentNode (store docReadonly ! 3) = None
   \<and> childNodes (store docReadonly ! 0) = [1, 2]"
  by (simp add: insert_elem_def neverEditable_def docReadonly_def docTwo_def newEditor_def
      createElement_def element_def)

text \<open>
  C2. \<open>setValue\<close> first turns a string into the tree the parser reads from it. It then
  accepts exactly an element (node type 1) whose tag is \<open>math\<close>: that element becomes
  the root, the cursor goes to "none", and \<open>update\<close> is called. Any other value makes it
  throw, and the editor is left as it was: the root, the cursor and every element that
  existed before the call are unchanged, the only trace of the call being the elements the
  parser made, which are attached to nothing the editor holds; for a value that is not a
  string the state is the very same.
\<close>

theorem setValue_all_or_nothing:
  "(acceptable toDom v (store s) \<longrightarrow>
      (\<exists>r ext s'. toElement toDom v (store s) = (JNode r, store s @ ext)
         \<and> setValue toDom v s = Inr s' \<and> value s' = r \<and> store s' = store s @ ext
         \<and> position s' = None \<and> isMath (store s') (value s')))
   \<and> (\<not> acceptable toDom v (store s) \<longrightarrow>
      (\<exists>e ext. setValue toDom v s = Inl (e, s\<lparr>store := store s @ ext\<rparr>)))
   \<and> (\<not> acceptable toDom v (store s) \<and> (\<forall>str. v \<noteq> JString str) \<longrightarrow>
      (\<exists>e. setValue toDom v s = Inl (e, s)))
   \<and> (toDom str = Some (Markup t tag as cs) \<longrightarrow>
        toElement toDom (JString str) (store s)
          = (JNode (length (store s)), store s @ flatten (Markup t tag as cs) None (length (store s)))
        \<and> acceptable toDom (JString str) (store s) = (t = 1 \<and> lcc2 tag ''math''))
   \<and> (toDom str = None \<longrightarrow> setValue toDom (JString str) s = Inl (TypeError, s))"
proof -
  obtain w h where te: "toElement toDom v (store s) = (w, h)"
    by (cases "toElement toDom v (store s)") 
  from toElement_extends [of toDom v "store s"] te obtain ext where h: "h = store s @ ext"
    by auto
  have a: "acceptable toDom v (store s) \<longrightarrow>
      (\<exists>r ext s'. toElement toDom v (store s) = (JNode r, store s @ ext)
         \<and> setValue toDom v s = Inr s' \<and> value s' = r \<and> store s' = store s @ ext
         \<and> position s' = None \<and> isMath (store s') (value s'))"
    using te h by (cases w) (auto simp add: acceptable_def setValue_def update_def Let_def)
  have b: "\<not> acceptable toDom v (store s) \<longrightarrow>
      (\<exists>e ext. setValue toDom v s = Inl (e, s\<lparr>store := store s @ ext\<rparr>))"
    using te h by (cases w) (auto simp add: acceptable_def setValue_def)
  have c: "\<not> acceptable toDom v (store s) \<and> (\<forall>str. v \<noteq> JString str) \<longrightarrow>
      (\<exists>e. setValue toDom v s = Inl (e, s))"
    by (cases v) (auto simp add: acceptable_def setValue_def toElement_def)
  have d: "toDom str = Some (Markup t tag as cs) \<longrightarrow>
        toElement toDom (JString str) (store s)
          = (JNode (length (store s)), store s @ flatten (Markup t tag as cs) None (length (store s)))
        \<and> acceptable toDom (JString str) (store s) = (t = 1 \<and> lcc2 tag ''math'')"
    by (simp add: acceptable_def toElement_def isMath_def)
  have e: "toDom str = None \<longrightarrow> setValue toDom (JString str) s = Inl (TypeError, s)"
    by (simp add: setValue_def toElement_def)
  from a b c d e show ?thesis by blast
qed

text \<open>
  On the document \<open>math[mi, mo]\<close>: the string of an \<open>mi\<close> and the \<open>mi\<close> of the document
  itself are rejected, the string of a \<open>math\<close> element is accepted.
\<close>

theorem setValue_all_or_nothing_witness:
  "(\<exists>e ext. setValue parseExample (JString ''<mi/>'') docTwo
              = Inl (e, docTwo\<lparr>store := store docTwo @ ext\<rparr>))
   \<and> (\<exists>e. setValue parseExample (JNode 1) docTwo = Inl (e, docTwo))
   \<and> (\<exists>r ext s'. toElement parseExample (JString ''<math><mi/></math>'') (store docTwo)
                   = (JNode r, store docTwo @ ext)
         \<and> setValue parseExample (JString ''<math><mi/></math>'') docTwo = Inr s'
         \<and> value s' = r \<and> store s' = store docTwo @ ext
         \<and> position s' = None \<and> isMath (store s') (value s'))"
proof -
  have n1: "\<not> acceptable parseExample (JString ''<mi/>'') (store docTwo)"
    by (simp add: acceptable_def toElement_def parseExample_def isMath_def lcc2_def lcc_examples
        nth_append)
  have n2: "\<not> acceptable parseExample (JNode 1) (store docTwo) \<and> (\<forall>str. JNode 1 \<noteq> JString str)"
    by (simp add: acceptable_def toElement_def isMath_def lcc2_def lcc_examples docTwo_facts
        element_def)
  have y: "acceptable parseExample (JString ''<math><mi/></math>'') (store docTwo)"
    by (simp add: acceptable_def toElement_def parseExample_def isMath_def lcc2_def lcc_examples
        nth_append)
  from n1 setValue_all_or_nothing [of parseExample "JString ''<mi/>''" docTwo]
  have a: "\<exists>e ext. setValue parseExample (JString ''<mi/>'') docTwo
              = Inl (e, docTwo\<lparr>store := store docTwo @ ext\<rparr>)"
    by blast
  from n2 setValue_all_or_nothing [of parseExample "JNode 1" docTwo]
  have b: "\<exists>e. setValue parseExample (JNode 1) docTwo = Inl (e, docTwo)"
    by blast
  from y setValue_all_or_nothing [of parseExample "JString ''<math><mi/></math>''" docTwo]
  have c: "\<exists>r ext s'. toElement parseExample (JString ''<math><mi/></math>'') (store docTwo)
                   = (JNode r, store docTwo @ ext)
         \<and> setValue parseExample (JString ''<math><mi/></math>'') docTwo = Inr s'
         \<and> value s' = r \<and> store s' = store docTwo @ ext
         \<and> position s' = None \<and> isMath (store s') (value s')"
    by blast
  from a b c show ?thesis by blast
qed

text \<open>
  C3, as the code has it. The editor keeps no record of which call to \<open>update\<close> was the
  last, and the callback of a round trip checks nothing: when the round trip completes it
  calls \<open>rendered.update()\<close> and \<open>cursor.update()\<close>. After two calls in sequence, with any
  change of the tree between them, both callbacks run, in the order in which the round
  trips complete: when the first round trip completes after the second, the callback of
  the first, superseded call runs after that of the second, and makes the same two calls;
  no completion is dropped.
\<close>

theorem superseded_callback_still_runs:
  assumes jax: "elementJax s"
    and fresh: "\<forall>k \<in> set (inflight s). k < issued s"
    and freshScroll: "\<forall>k \<in> set (scrolls s). k < issued s"
  shows "snd (update s) = Pending (issued s)
     \<and> snd (update ((firstCall s)\<lparr>store := h\<rparr>)) = Pending (Suc (issued s))
     \<and> trace (secondCall h s) =
         trace s @ [FreezeWrapper, Emit (Update (store s, value s)), TreeSync (store s, value s),
                    Typeset (issued s) (store s, value s),
                    FreezeWrapper, Emit (Update (h, value s)), TreeSync (h, value s),
                    Typeset (Suc (issued s)) (h, value s)]
     \<and> trace (resolve (issued s) (resolve (Suc (issued s)) (secondCall h s))) =
         trace (secondCall h s)
           @ [ReleaseWrapper, RenderedUpdate (Suc (issued s)), CursorUpdate (Suc (issued s)),
              ReleaseWrapper, RenderedUpdate (issued s), CursorUpdate (issued s)]
     \<and> trace (resolve (Suc (issued s)) (resolve (issued s) (secondCall h s))) =
         trace (secondCall h s)
           @ [ReleaseWrapper, RenderedUpdate (issued s), CursorUpdate (issued s),
              ReleaseWrapper, RenderedUpdate (Suc (issued s)), CursorUpdate (Suc (issued s))]
     \<and> inflight (resolve (issued s) (resolve (Suc (issued s)) (secondCall h s))) = inflight s"
proof -
  from fresh have nf: "issued s \<notin> set (inflight s)" "Suc (issued s) \<notin> set (inflight s)"
    by auto
  from freshScroll have ns: "issued s \<notin> set (scrolls s)" "Suc (issued s) \<notin> set (scrolls s)"
    by auto
  have p1: "snd (update s) = Pending (issued s)"
    using jax by (simp add: update_def Let_def)
  have p2: "snd (update ((firstCall s)\<lparr>store := h\<rparr>)) = Pending (Suc (issued s))"
    using jax by (simp add: update_def firstCall_def Let_def)
  have fl: "inflight (secondCall h s) = inflight s @ [issued s, Suc (issued s)]"
    using jax by (simp add: update_def firstCall_def secondCall_def Let_def)
  have sc: "scrolls (secondCall h s) = scrolls s"
    using jax by (simp add: update_def firstCall_def secondCall_def Let_def)
  have tr: "trace (secondCall h s) =
         trace s @ [FreezeWrapper, Emit (Update (store s, value s)), TreeSync (store s, value s),
                    Typeset (issued s) (store s, value s),
                    FreezeWrapper, Emit (Update (h, value s)), TreeSync (h, value s),
                    Typeset (Suc (issued s)) (h, value s)]"
    using jax by (simp add: update_def firstCall_def secondCall_def Let_def)
  have t1: "trace (resolve (issued s) (resolve (Suc (issued s)) (secondCall h s))) =
         trace (secondCall h s)
           @ [ReleaseWrapper, RenderedUpdate (Suc (issued s)), CursorUpdate (Suc (issued s)),
              ReleaseWrapper, RenderedUpdate (issued s), CursorUpdate (issued s)]"
    using nf ns by (simp add: resolve_def fl sc)
  have t2: "trace (resolve (Suc (issued s)) (resolve (issued s) (secondCall h s))) =
         trace (secondCall h s)
           @ [ReleaseWrapper, RenderedUpdate (issued s), CursorUpdate (issued s),
              ReleaseWrapper, RenderedUpdate (Suc (issued s)), CursorUpdate (Suc (issued s))]"
    using nf ns by (simp add: resolve_def fl sc)
  have i1: "inflight (resolve (issued s) (resolve (Suc (issued s)) (secondCall h s))) = inflight s"
    using nf by (simp add: resolve_def fl sc)
  from p1 p2 tr t1 t2 i1 show ?thesis by blast
qed

text \<open>
  Two calls from an editor with an element jax and nothing in flight, the document being
  replaced by \<open>math[mi, mo]\<close> between them; round trip 1 completes, then round trip 0.
\<close>

theorem superseded_callback_still_runs_witness:
  "trace (resolve 0 (resolve 1 (secondCall (store docTwo) readyEditor))) =
     [FreezeWrapper, Emit (Update snapEmpty), TreeSync snapEmpty, Typeset 0 snapEmpty,
      FreezeWrapper, Emit (Update (store docTwo, 0)), TreeSync (store docTwo, 0),
      Typeset 1 (store docTwo, 0),
      ReleaseWrapper, RenderedUpdate 1, CursorUpdate 1,
      ReleaseWrapper, RenderedUpdate 0, CursorUpdate 0]"
proof -
  have fresh: "\<forall>k \<in> set (inflight readyEditor). k < issued readyEditor"
    by (simp add: readyEditor_facts)
  have freshScroll: "\<forall>k \<in> set (scrolls readyEditor). k < issued readyEditor"
    by (simp add: readyEditor_facts)
  from superseded_callback_still_runs [OF readyEditor_facts(1) fresh freshScroll, of "store docTwo"]
  show ?thesis
    by (simp add: readyEditor_facts snapEmpty_def)
qed

text \<open>
  The claim as worded fails. The construction's \<open>update\<close> (call 0, which submitted the
  empty document) and the one of \<open>insertNewline\<close> (call 1, which submitted
  \<open>math[mspace]\<close>) are both in flight; round trip 1 completes, then round trip 0. The
  completion of the superseded call 0 is not dropped: its callback calls
  \<open>rendered.update()\<close> and \<open>cursor.update()\<close>, and it does so last.
\<close>

theorem superseded_update_applied_counterexample:
  "issued twoInFlight = 2
   \<and> inflight twoInFlight = [0, 1]
   \<and> Typeset 0 snapEmpty \<in> set (trace twoInFlight)
   \<and> Typeset 1 snapNewline \<in> set (trace twoInFlight)
   \<and> snapEmpty \<noteq> snapNewline
   \<and> trace (resolve 0 (resolve 1 twoInFlight)) =
       trace twoInFlight @ [ReleaseWrapper, RenderedUpdate 1, CursorUpdate 1, ScrollToCaret,
                            ReleaseWrapper, RenderedUpdate 0, CursorUpdate 0]"
  by (simp add: twoInFlight_def stateOf_def insertNewline_def newline_def insert_elem_def
      place_def prependElement_def detach_def attach_def alwaysEditable_def jaxReady_def
      update_def focus_def resolve_def newEditor_def createElement_def snapEmpty_def
      snapNewline_def element_def mspaceNewline_def Let_def)

text \<open>
  C4. \<open>applyBackspace\<close> and \<open>applyDelete\<close> are total: for every store and position they
  return a store and a position, and raise nothing. Where there is nothing to remove,
  they return the store and the position they were given: backspace at the start of the
  document ("none") and at the document root, delete at "none" in an empty document and
  at the last child of its parent. There \<open>backspaceRemove\<close> and \<open>deleteRemove\<close> leave the
  editor's tree and cursor position as they were.
\<close>

theorem removal_at_boundary_is_noop:
  "applyBackspace required h root None = (h, None)
   \<and> applyBackspace required h root (Some root) = (h, Some root)
   \<and> (childNodes (h ! root) = [] \<longrightarrow> applyDelete h root None = (h, None))
   \<and> (parentNode (h ! p) = Some q \<and> childNodes (h ! q) = xs @ [p] \<and> p \<notin> set xs
        \<longrightarrow> applyDelete h root (Some p) = (h, Some p))
   \<and> (position s = None
        \<longrightarrow> store (backspaceRemove required s) = store s
            \<and> position (backspaceRemove required s) = None)
   \<and> (position s = None \<and> childNodes (store s ! value s) = []
        \<longrightarrow> store (deleteRemove s) = store s \<and> position (deleteRemove s) = None)
   \<and> (position s = Some p \<and> parentNode (store s ! p) = Some q
        \<and> childNodes (store s ! q) = xs @ [p] \<and> p \<notin> set xs
        \<longrightarrow> store (deleteRemove s) = store s \<and> position (deleteRemove s) = Some p)"
  by (simp add: applyDelete_def backspaceRemove_def deleteRemove_def nextSibling_last
      thenScroll_update_frame)

text \<open>
  In \<open>math[mi, mo]\<close>: delete with the cursor after \<open>mo\<close>, backspace with the cursor at
  the start.
\<close>

theorem removal_at_boundary_is_noop_witness:
  "store (deleteRemove (docTwo\<lparr>position := Some 2\<rparr>)) = store docTwo
   \<and> position (deleteRemove (docTwo\<lparr>position := Some 2\<rparr>)) = Some 2
   \<and> store (backspaceRemove (\<lambda>tag. False) (docTwo\<lparr>position := None\<rparr>)) = store docTwo
   \<and> position (backspaceRemove (\<lambda>tag. False) (docTwo\<lparr>position := None\<rparr>)) = None"
proof -
  have last: "position (docTwo\<lparr>position := Some 2\<rparr>) = Some 2
      \<and> parentNode (store (docTwo\<lparr>position := Some 2\<rparr>) ! 2) = Some 0
      \<and> childNodes (store (docTwo\<lparr>position := Some 2\<rparr>) ! 0) = [1] @ [2] \<and> 2 \<notin> set [1::nat]"
    by (simp add: docTwo_facts element_def)
  note thm1 = removal_at_boundary_is_noop
    [of "\<lambda>tag. False" "store docTwo" 0 2 0 "[1]" "docTwo\<lparr>position := Some 2\<rparr>"]
  note thm2 = removal_at_boundary_is_noop
    [of "\<lambda>tag. False" "store docTwo" 0 2 0 "[1]" "docTwo\<lparr>position := None\<rparr>"]
  from last thm1 have a: "store (deleteRemove (docTwo\<lparr>position := Some 2\<rparr>)) = store docTwo
      \<and> position (deleteRemove (docTwo\<lparr>position := Some 2\<rparr>)) = Some 2"
    by simp
  from thm2 have b: "store (backspaceRemove (\<lambda>tag. False) (docTwo\<lparr>position := None\<rparr>)) = store docTwo
      \<and> position (backspaceRemove (\<lambda>tag. False) (docTwo\<lparr>position := None\<rparr>)) = None"
    by simp
  from a b show ?thesis by simp
qed

text \<open>
  C5. Let the editor hold a tree \<open>m\<close> under a \<open>math\<close> root (read from the store within
  \<open>n\<close> levels). Then \<open>getValue\<close> returns a copy \<open>c\<close>, \<open>setValue\<close> accepts that copy, and
  \<open>getValue\<close> again returns a copy \<open>c2\<close>: both copies are the tree \<open>m\<close>, so the round
  trip loses nothing. \<open>getValue\<close> changes nothing the editor holds; the copy is made of
  new elements only, appended to the store and attached nowhere. The copy is independent
  of the editor's tree in both directions: whatever is done to the new elements, the
  editor's tree still reads \<open>m\<close>; and whatever is done to the elements that existed before,
  the copy still reads \<open>m\<close>.
\<close>

theorem getValue_roundtrip_independent:
  assumes tree: "reify n (store s) (value s) = Some m"
    and math: "isMath (store s) (value s)"
  shows "\<exists>c s1 s2 c2 s3 ext.
      getValue n s = Some (c, s1)
    \<and> setValue toDom (JNode c) s1 = Inr s2
    \<and> getValue n s2 = Some (c2, s3)
    \<and> reify n (store s1) c = Some m
    \<and> reify n (store s3) c2 = Some m
    \<and> value s1 = value s \<and> position s1 = position s
    \<and> store s1 = store s @ ext \<and> c = length (store s)
    \<and> parentNode (store s1 ! c) = None
    \<and> (\<forall>ext'. reify n (store s @ ext') (value s) = Some m)
    \<and> (\<forall>h0. length h0 = length (store s) \<longrightarrow> reify n (h0 @ ext) c = Some m)"
proof -
  let ?c = "length (store s)"
  let ?ext = "flatten m None ?c"
  let ?s1 = "s\<lparr>store := store s @ ?ext\<rparr>"
  let ?s2 = "fst (update (?s1\<lparr>value := ?c, position := None\<rparr>))"
  let ?c2 = "length (store ?s1)"
  let ?s3 = "?s2\<lparr>store := store ?s1 @ flatten m None ?c2\<rparr>"
  from reify_root [OF tree] obtain cs where
    m: "m = Markup (nodeType (store s ! value s)) (tagName (store s ! value s))
              (attributes (store s ! value s)) cs"
    by blast
  have g1: "getValue n s = Some (?c, ?s1)"
    by (simp add: getValue_def getCleanCopy_def tree)
  have r1: "reify n (store ?s1) ?c = Some m"
    using reify_flatten [OF tree, of "store s" None "[]"] by simp
  have root1: "store ?s1 ! ?c =
      \<lparr>nodeType = nodeType (store s ! value s), tagName = tagName (store s ! value s),
       attributes = attributes (store s ! value s),
       childNodes = childRefs cs (Suc ?c), parentNode = None\<rparr>"
    using flatten_root [of "store s" _ _ _ cs None "[]"] by (simp add: m)
  have math1: "isMath (store ?s1) ?c"
    using math unfolding isMath_def root1 by simp
  have sv: "setValue toDom (JNode ?c) ?s1 = Inr ?s2"
    using math1 by (simp add: setValue_def toElement_def)
  have s2: "store ?s2 = store ?s1" "value ?s2 = ?c"
    by (simp_all add: update_def Let_def)
  have g2: "getValue n ?s2 = Some (?c2, ?s3)"
    using r1 by (simp add: getValue_def getCleanCopy_def s2)
  have r3: "reify n (store ?s3) ?c2 = Some m"
    using reify_flatten [OF tree, of "store ?s1" None "[]"] by simp
  have indep1: "\<forall>ext'. reify n (store s @ ext') (value s) = Some m"
    using reify_append [OF tree] by blast
  have indep2: "\<forall>h0. length h0 = length (store s) \<longrightarrow> reify n (h0 @ ?ext) ?c = Some m"
  proof (intro allI impI)
    fix h0 :: dom
    assume "length h0 = length (store s)"
    with reify_flatten [OF tree, of h0 None "[]"] show "reify n (h0 @ ?ext) ?c = Some m"
      by simp
  qed
  have par: "parentNode (store ?s1 ! ?c) = None"
    unfolding root1 by simp
  have frame: "value ?s1 = value s" "position ?s1 = position s" "store ?s1 = store s @ ?ext"
    by simp_all
  from g1 sv g2 r1 r3 frame par indep1 indep2 show ?thesis
    by blast
qed

text \<open>The round trip on the document \<open>math[mi, mo]\<close>, read within two levels.\<close>

theorem getValue_roundtrip_independent_witness:
  "\<exists>c s1 s2 c2 s3 ext.
      getValue 2 docTwo = Some (c, s1)
    \<and> setValue parseExample (JNode c) s1 = Inr s2
    \<and> getValue 2 s2 = Some (c2, s3)
    \<and> reify 2 (store s1) c = Some docTwoMarkup
    \<and> reify 2 (store s3) c2 = Some docTwoMarkup
    \<and> value s1 = value docTwo \<and> position s1 = position docTwo
    \<and> store s1 = store docTwo @ ext \<and> c = length (store docTwo)"
proof -
  have tree: "reify 2 (store docTwo) (value docTwo) = Some docTwoMarkup"
    by (simp add: docTwo_facts element_def docTwoMarkup_def numeral_2_eq_2)
  have math: "isMath (store docTwo) (value docTwo)"
    by (simp add: docTwo_facts element_def isMath_def lcc2_def lcc_examples)
  from getValue_roundtrip_independent [OF tree math, of parseExample]
  show ?thesis
    by blast
qed

text \<open>
  C6, as the code has it. \<open>destroy\<close> stops the blinker (its timers are cancelled), removes
  the container from the page and detaches one listener, the window's \<open>resize\<close> handler:
  of the ten listeners the constructor registered, the nine on the display and on the
  input stay. It leaves the round trips in flight as they are, and keeps no flag that
  says the editor is gone: the callback of a round trip that completes afterwards still
  calls \<open>rendered.update()\<close> and \<open>cursor.update()\<close>.
\<close>

theorem destroy_effects:
  "blinkerState (destroy s) = Stopped
   \<and> \<not> mounted (destroy s)
   \<and> listeners (destroy s) = remove1 (Window, ''resize'', HandleResize) (listeners s)
   \<and> listeners (destroy (newEditor ph nl ro)) =
        [(Display, ''click'', HandleClick), (Input, ''keyup'', HandleInput),
         (Input, ''keydown'', HandleInput), (Input, ''keydown'', HandleKeydown),
         (Input, ''focus'', HandleFocus), (Input, ''blur'', HandleBlur),
         (Display, ''mouseenter'', HandleMouseenter),
         (Display, ''mouseleave'', HandleMouseleave), (Display, ''scroll'', HandleResize)]
   \<and> inflight (destroy s) = inflight s
   \<and> (n \<in> set (inflight s) \<longrightarrow>
        trace (resolve n (destroy s)) =
            trace s @ [BlinkerDestroy, RemoveContainer, ReleaseWrapper, RenderedUpdate n,
                       CursorUpdate n] @ (if n \<in> set (scrolls s) then [ScrollToCaret] else []))"
  by (simp add: destroy_def blinkerDestroy_def resolve_def newEditor_def createElement_def)

text \<open>
  The round trip of the construction's \<open>update\<close>, completing after \<open>destroy\<close>.
\<close>

theorem destroy_effects_witness:
  "trace (resolve 0 (destroy (jaxReady (newEditor None False False)))) =
       [FreezeWrapper, Emit (Update snapEmpty), TreeSync snapEmpty, Typeset 0 snapEmpty,
        BlinkerDestroy, RemoveContainer, ReleaseWrapper, RenderedUpdate 0, CursorUpdate 0]"
proof -
  have fl: "0 \<in> set (inflight (jaxReady (newEditor None False False)))"
    "trace (jaxReady (newEditor None False False)) =
       [FreezeWrapper, Emit (Update snapEmpty), TreeSync snapEmpty, Typeset 0 snapEmpty]"
    "scrolls (jaxReady (newEditor None False False)) = []"
    by (simp_all add: jaxReady_def update_def newEditor_def createElement_def snapEmpty_def
        element_def Let_def)
  from destroy_effects [of "jaxReady (newEditor None False False)" None False False 0]
  show ?thesis
    by (simp add: fl)
qed

text \<open>
  The claim as worded fails: after \<open>destroy\<close> the \<open>keydown\<close> handler is still among the
  nine listeners left, and the round trip in flight, completing after the teardown, runs
  its callback (\<open>rendered.update()\<close>, \<open>cursor.update()\<close>) and so changes the editor's
  state.
\<close>

theorem destroy_detaches_all_counterexample:
  "(Input, ''keydown'', HandleKeydown) \<in> set (listeners (destroy (jaxReady (newEditor None False False))))
   \<and> length (listeners (destroy (jaxReady (newEditor None False False)))) = 9
   \<and> RenderedUpdate 0 \<notin> set (trace (destroy (jaxReady (newEditor None False False))))
   \<and> RenderedUpdate 0 \<in> set (trace (resolve 0 (destroy (jaxReady (newEditor None False False)))))
   \<and> CursorUpdate 0 \<in> set (trace (resolve 0 (destroy (jaxReady (newEditor None False False)))))
   \<and> resolve 0 (destroy (jaxReady (newEditor None False False)))
       \<noteq> destroy (jaxReady (newEditor None False False))"
  by (simp add: destroy_def blinkerDestroy_def resolve_def jaxReady_def update_def newEditor_def
      createElement_def snapEmpty_def element_def Let_def)

text \<open>
  C7. While no element jax is available, a call to \<open>update\<close> resolves at once and does
  nothing else: the editor's state, with the trace of everything it asked of the renderer,
  the \<open>Tree\<close>, the \<open>Rendered\<close> and the \<open>Cursor\<close> objects, is exactly as before, so no
  re-typeset, no serialisation and no caret or geometry recomputation happens, and the
  next call finds the editor in the same inert state.
\<close>

theorem update_inert_without_jax:
  "\<not> elementJax s \<Longrightarrow> update s = (s, Resolved)"
  by (simp add: update_def)

theorem update_inert_without_jax_witness:
  "\<not> elementJax (newEditor None False False) \<and>
   update (newEditor None False False) = (newEditor None False False, Resolved)"
proof -
  have nojax: "\<not> elementJax (newEditor None False False)"
    by (simp add: newEditor_def createElement_def)
  from nojax update_inert_without_jax [OF nojax] show ?thesis
    by simp
qed

text \<open>
  C8. A keystroke event on the hidden input empties the input's buffer. Every buffer is
  white space, then a content that neither starts nor ends with white space (or is
  empty), then white space; that content is the trimmed buffer. The raw-input event is
  emitted, carrying that content, exactly when the content is not empty, that is when
  the buffer is not all white space; nothing else changes. No other handler or operation
  of the editor writes the buffer of the input.
\<close>

theorem handleInput_clears_and_emits:
  "(inputValue s = pre @ t @ post \<and> list_all isWhiteSpace pre \<and> list_all isWhiteSpace post
      \<and> (t = [] \<or> \<not> isWhiteSpace (hd t) \<and> \<not> isWhiteSpace (last t))
    \<longrightarrow> handleInput s =
          s\<lparr>inputValue := [],
            trace := trace s @ (if t = [] then [] else [Emit (RawInput t)])\<rparr>)
   \<and> (\<exists>pre t post. inputValue s = pre @ t @ post
         \<and> list_all isWhiteSpace pre \<and> list_all isWhiteSpace post
         \<and> (t = [] \<or> \<not> isWhiteSpace (hd t) \<and> \<not> isWhiteSpace (last t)))
   \<and> inputValue (handleInput s) = []
   \<and> (trace (handleInput s) = trace s) = list_all isWhiteSpace (inputValue s)
   \<and> inputValue (handleFocus s) = inputValue s
   \<and> inputValue (handleBlur s) = inputValue s
   \<and> inputValue (handleMouseenter s) = inputValue s
   \<and> inputValue (handleMouseleave s) = inputValue s
   \<and> inputValue (focus s) = inputValue s
   \<and> inputValue (fst (update s)) = inputValue s
   \<and> inputValue (resolve n s) = inputValue s
   \<and> inputValue (destroy s) = inputValue s
   \<and> inputValue (jaxReady s) = inputValue s
   \<and> inputValue (stateOf (insert_elem isEditable el moveTo s)) = inputValue s
   \<and> inputValue (stateOf (insertNewline isEditable s)) = inputValue s
   \<and> inputValue (stateOf (setValue toDom v s)) = inputValue s
   \<and> (case getValue k s of None \<Rightarrow> True | Some (c, s') \<Rightarrow> inputValue s' = inputValue s)
   \<and> inputValue (backspaceRemove required s) = inputValue s
   \<and> inputValue (deleteRemove s) = inputValue s"
proof -
  have a: "inputValue s = pre @ t @ post \<and> list_all isWhiteSpace pre \<and> list_all isWhiteSpace post
      \<and> (t = [] \<or> \<not> isWhiteSpace (hd t) \<and> \<not> isWhiteSpace (last t))
    \<longrightarrow> handleInput s =
          s\<lparr>inputValue := [],
            trace := trace s @ (if t = [] then [] else [Emit (RawInput t)])\<rparr>"
  proof
    assume h: "inputValue s = pre @ t @ post \<and> list_all isWhiteSpace pre
      \<and> list_all isWhiteSpace post
      \<and> (t = [] \<or> \<not> isWhiteSpace (hd t) \<and> \<not> isWhiteSpace (last t))"
    then have "trim (pre @ t @ post) = t"
      by (intro trim_decomposed) simp_all
    with h have "trim (inputValue s) = t" by simp
    then show "handleInput s =
          s\<lparr>inputValue := [],
            trace := trace s @ (if t = [] then [] else [Emit (RawInput t)])\<rparr>"
      by (simp add: handleInput_def emit_def Let_def)
  qed
  have b: "\<exists>pre t post. inputValue s = pre @ t @ post
         \<and> list_all isWhiteSpace pre \<and> list_all isWhiteSpace post
         \<and> (t = [] \<or> \<not> isWhiteSpace (hd t) \<and> \<not> isWhiteSpace (last t))"
    using trim_decomposition [of "inputValue s"] by blast
  have c: "inputValue (handleInput s) = []"
    by (simp add: handleInput_def emit_def Let_def)
  have d: "(trace (handleInput s) = trace s) = list_all isWhiteSpace (inputValue s)"
    by (simp add: handleInput_def emit_def Let_def trim_empty_iff)
  have e: "inputValue (handleFocus s) = inputValue s"
    "inputValue (handleBlur s) = inputValue s"
    "inputValue (handleMouseenter s) = inputValue s"
    "inputValue (handleMouseleave s) = inputValue s"
    "inputValue (focus s) = inputValue s"
    "inputValue (fst (update s)) = inputValue s"
    "inputValue (resolve n s) = inputValue s"
    "inputValue (destroy s) = inputValue s"
    by (simp_all add: handleFocus_def handleBlur_def handleMouseenter_def
        handleMouseleave_def focus_def update_def resolve_def destroy_def emit_def Let_def)
  have f: "case getValue k s of None \<Rightarrow> True | Some (c, s') \<Rightarrow> inputValue s' = inputValue s"
    by (auto simp add: getValue_def split: option.split)
  from a b c d e f frame_input
  show ?thesis
    by blast
qed

text \<open>
  A buffer "a b" with white space around it (space, tab, no-break space, line feed), and
  a buffer of white space only (space, line separator, ideographic space).
\<close>

theorem handleInput_clears_and_emits_witness:
  "handleInput (docTwo\<lparr>inputValue := [32, 9, 97, 32, 98, 160, 10]\<rparr>) =
     docTwo\<lparr>inputValue := [], trace := [Emit (RawInput [97, 32, 98])]\<rparr>
   \<and> handleInput (docTwo\<lparr>inputValue := [32, 8232, 12288]\<rparr>) = docTwo\<lparr>inputValue := []\<rparr>"
proof -
  have t0: "trace docTwo = []"
    by (simp add: docTwo_def newEditor_def createElement_def)
  have h1: "inputValue (docTwo\<lparr>inputValue := [32, 9, 97, 32, 98, 160, 10]\<rparr>)
              = [32, 9] @ [97, 32, 98] @ [160, 10]
      \<and> list_all isWhiteSpace [32, 9] \<and> list_all isWhiteSpace [160, 10]
      \<and> ([97, 32, 98] = ([]::nat list)
           \<or> \<not> isWhiteSpace (hd [97, 32, 98]) \<and> \<not> isWhiteSpace (last [97, 32, 98]))"
    by (simp add: isWhiteSpace_def)
  have h2: "inputValue (docTwo\<lparr>inputValue := [32, 8232, 12288]\<rparr>) = [32, 8232, 12288] @ [] @ []
      \<and> list_all isWhiteSpace [32, 8232, 12288] \<and> list_all isWhiteSpace []
      \<and> ([] = ([]::nat list) \<or> \<not> isWhiteSpace (hd []) \<and> \<not> isWhiteSpace (last []))"
    by (simp add: isWhiteSpace_def)
  note thm1 = handleInput_clears_and_emits
    [of "docTwo\<lparr>inputValue := [32, 9, 97, 32, 98, 160, 10]\<rparr>" "[32, 9]" "[97, 32, 98]" "[160, 10]",
      THEN conjunct1, rule_format, OF h1]
  note thm2 = handleInput_clears_and_emits
    [of "docTwo\<lparr>inputValue := [32, 8232, 12288]\<rparr>" "[32, 8232, 12288]" "[]" "[]",
      THEN conjunct1, rule_format, OF h2]
  from thm1 thm2 show ?thesis
    by (simp add: t0)
qed

text \<open>
  C9, as the code has it. \<open>insertNewline\<close> changes nothing when newlines are not allowed,
  and when the position is an element whose tag is not \<open>math\<close> and which has a parent
  whose tag is not \<open>math\<close>; at an element whose tag is not \<open>math\<close> and which has no
  parent, the test of the parent's tag throws. Otherwise it creates exactly one \<open>mspace\<close>
  element with the attribute \<open>linebreak="newline"\<close> and calls \<open>insert\<close> with it and no
  \<open>moveTo\<close>. Where \<open>insert\<close> returns at its readonly guard, the element is attached
  nowhere and the tree and the cursor are as before. Where it does not, the \<open>mspace\<close>
  becomes the cursor position and is placed by the rule of \<open>insert\<close>: with no position,
  first among the children of the document root; at a \<open>math\<close> element, last among them;
  at an \<open>mrow\<close> directly under a \<open>math\<close> element, first among the children of that
  row; at any other element directly under a \<open>math\<close> element, immediately after it
  among the children of its parent.
\<close>

theorem insertNewline_cases:
  "(\<not> allowNewlines s \<longrightarrow> insertNewline isEditable s = Inr s)
   \<and> (position s = Some p \<and> \<not> lcc2 (tagName (store s ! p)) ''math''
        \<and> parentNode (store s ! p) = Some q \<and> \<not> lcc2 (tagName (store s ! q)) ''math''
      \<longrightarrow> insertNewline isEditable s = Inr s)
   \<and> (allowNewlines s \<and> position s = Some p \<and> \<not> lcc2 (tagName (store s ! p)) ''math''
        \<and> parentNode (store s ! p) = None
      \<longrightarrow> insertNewline isEditable s = Inl (TypeError, s))
   \<and> (allowNewlines s
        \<and> (position s = None
             \<or> position s = Some p
                \<and> (lcc2 (tagName (store s ! p)) ''math''
                     \<or> parentNode (store s ! p) = Some q \<and> lcc2 (tagName (store s ! q)) ''math''))
      \<longrightarrow> insertNewline isEditable s =
            insert_elem isEditable (length (store s)) None
              (s\<lparr>store := store s @ [mspaceNewline None]\<rparr>)
          \<and> (readonly s \<and> \<not> isEditable (store s @ [mspaceNewline None]) (position s)
              \<longrightarrow> insertNewline isEditable s
                    = Inr (s\<lparr>store := store s @ [mspaceNewline None]\<rparr>)))
   \<and> (allowNewlines s
        \<and> (position s = None
             \<or> position s = Some p \<and> p < length (store s)
                \<and> (lcc2 (tagName (store s ! p)) ''math''
                     \<or> parentNode (store s ! p) = Some q \<and> q < length (store s)
                        \<and> lcc2 (tagName (store s ! q)) ''math''))
        \<and> value s < length (store s)
        \<and> \<not> (readonly s \<and> \<not> isEditable (store s @ [mspaceNewline None]) (position s))
      \<longrightarrow> (\<exists>s'. insertNewline isEditable s = Inr s'
             \<and> position s' = Some (length (store s))
             \<and> length (store s') = Suc (length (store s))
             \<and> tagName (store s' ! length (store s)) = ''mspace''
             \<and> attributes (store s' ! length (store s)) = [(''linebreak'', ''newline'')]
             \<and> (case position s of
                  None \<Rightarrow>
                    childNodes (store s' ! value s) = length (store s) # childNodes (store s ! value s)
                    \<and> parentNode (store s' ! length (store s)) = Some (value s)
                | Some r \<Rightarrow>
                    if lcc (tagName (store s ! r)) = ''mrow''
                    then childNodes (store s' ! r) = length (store s) # childNodes (store s ! r)
                         \<and> parentNode (store s' ! length (store s)) = Some r
                    else if lcc (tagName (store s ! r)) = ''math''
                    then childNodes (store s' ! value s)
                           = childNodes (store s ! value s) @ [length (store s)]
                         \<and> parentNode (store s' ! length (store s)) = Some (value s)
                    else (\<exists>u. parentNode (store s ! r) = Some u
                           \<and> parentNode (store s' ! length (store s)) = Some u
                           \<and> (\<forall>xs ys. childNodes (store s ! u) = xs @ r # ys \<and> r \<notin> set xs
                                \<longrightarrow> childNodes (store s' ! u)
                                      = xs @ r # length (store s) # ys)))))"
proof -
  let ?m = "length (store s)"
  let ?s = "s\<lparr>store := store s @ [mspaceNewline None]\<rparr>"
  let ?G = "position s = None
             \<or> position s = Some p
                \<and> (lcc2 (tagName (store s ! p)) ''math''
                     \<or> parentNode (store s ! p) = Some q \<and> lcc2 (tagName (store s ! q)) ''math'')"
  have a: "\<not> allowNewlines s \<longrightarrow> insertNewline isEditable s = Inr s"
    by (simp add: insertNewline_def)
  have b: "position s = Some p \<and> \<not> lcc2 (tagName (store s ! p)) ''math''
        \<and> parentNode (store s ! p) = Some q \<and> \<not> lcc2 (tagName (store s ! q)) ''math''
      \<longrightarrow> insertNewline isEditable s = Inr s"
    by (simp add: insertNewline_def)
  have t: "allowNewlines s \<and> position s = Some p \<and> \<not> lcc2 (tagName (store s ! p)) ''math''
        \<and> parentNode (store s ! p) = None
      \<longrightarrow> insertNewline isEditable s = Inl (TypeError, s)"
    by (simp add: insertNewline_def)
  have c: "insertNewline isEditable s = insert_elem isEditable ?m None ?s"
    if "allowNewlines s" ?G
    using that by (auto simp add: insertNewline_def newline_eq)
  have c': "insertNewline isEditable s = Inr ?s"
    if "allowNewlines s" ?G
      "readonly s" "\<not> isEditable (store s @ [mspaceNewline None]) (position s)"
    using c [OF that(1,2)] that(3,4) by (simp add: insert_elem_def)
  have d: "\<exists>s'. insertNewline isEditable s = Inr s'
             \<and> position s' = Some ?m
             \<and> length (store s') = Suc ?m
             \<and> tagName (store s' ! ?m) = ''mspace''
             \<and> attributes (store s' ! ?m) = [(''linebreak'', ''newline'')]
             \<and> (case position s of
                  None \<Rightarrow>
                    childNodes (store s' ! value s) = ?m # childNodes (store s ! value s)
                    \<and> parentNode (store s' ! ?m) = Some (value s)
                | Some r \<Rightarrow>
                    if lcc (tagName (store s ! r)) = ''mrow''
                    then childNodes (store s' ! r) = ?m # childNodes (store s ! r)
                         \<and> parentNode (store s' ! ?m) = Some r
                    else if lcc (tagName (store s ! r)) = ''math''
                    then childNodes (store s' ! value s) = childNodes (store s ! value s) @ [?m]
                         \<and> parentNode (store s' ! ?m) = Some (value s)
                    else (\<exists>u. parentNode (store s ! r) = Some u
                           \<and> parentNode (store s' ! ?m) = Some u
                           \<and> (\<forall>xs ys. childNodes (store s ! u) = xs @ r # ys \<and> r \<notin> set xs
                                \<longrightarrow> childNodes (store s' ! u) = xs @ r # ?m # ys)))"
    if allow: "allowNewlines s"
      and G: "position s = None
             \<or> position s = Some p \<and> p < length (store s)
                \<and> (lcc2 (tagName (store s ! p)) ''math''
                     \<or> parentNode (store s ! p) = Some q \<and> q < length (store s)
                        \<and> lcc2 (tagName (store s ! q)) ''math'')"
      and root: "value s < length (store s)"
      and guard: "\<not> (readonly s \<and> \<not> isEditable (store s @ [mspaceNewline None]) (position s))"
  proof -
    from G have G': ?G by blast
    have eq: "insertNewline isEditable s = insert_elem isEditable ?m None ?s"
      by (rule c [OF allow G'])
    have g: "\<not> (readonly ?s \<and> \<not> isEditable (store ?s) (position ?s))"
      using guard by simp
    have el: "?m < length (store ?s)" "parentNode (store ?s ! ?m) = None" "?m \<noteq> value ?s"
      using root by (simp_all add: mspaceNewline_def)
    have rt: "value ?s < length (store ?s)"
      using root by simp
    have pos: "\<forall>r. position ?s = Some r \<longrightarrow> r < length (store ?s) \<and> r \<noteq> ?m"
      using G by auto
    have par: "\<forall>r. position ?s = Some r \<and> lcc (tagName (store ?s ! r)) \<noteq> ''mrow''
                \<and> lcc (tagName (store ?s ! r)) \<noteq> ''math''
              \<longrightarrow> (\<exists>u. parentNode (store ?s ! r) = Some u \<and> u < length (store ?s) \<and> u \<noteq> ?m)"
      using G by (auto simp add: nth_append lcc2_def)
    from insert_elem_places [where isEditable = isEditable and moveTo = None, OF g el rt pos par]
    obtain s' where s': "insert_elem isEditable ?m None ?s = Inr s'"
      and cur: "position s' = Some ?m"
      and placed: "case position ?s of
          None \<Rightarrow>
            childNodes (store s' ! value ?s) = ?m # childNodes (store ?s ! value ?s)
            \<and> parentNode (store s' ! ?m) = Some (value ?s)
        | Some r \<Rightarrow>
            if lcc (tagName (store ?s ! r)) = ''mrow''
            then childNodes (store s' ! r) = ?m # childNodes (store ?s ! r)
                 \<and> parentNode (store s' ! ?m) = Some r
            else if lcc (tagName (store ?s ! r)) = ''math''
            then childNodes (store s' ! value ?s) = childNodes (store ?s ! value ?s) @ [?m]
                 \<and> parentNode (store s' ! ?m) = Some (value ?s)
            else (\<exists>u. parentNode (store ?s ! r) = Some u \<and> parentNode (store s' ! ?m) = Some u
                   \<and> (\<forall>xs ys. childNodes (store ?s ! u) = xs @ r # ys \<and> r \<notin> set xs
                        \<longrightarrow> childNodes (store s' ! u) = xs @ r # ?m # ys))"
      by auto
    have lab: "labels (store s') = labels (store ?s)"
      using s' by (rule insert_elem_labels)
    have shape: "length (store s') = Suc ?m" "tagName (store s' ! ?m) = ''mspace''"
      "attributes (store s' ! ?m) = [(''linebreak'', ''newline'')]"
      using labels_nth [OF lab el(1)] by (simp_all add: mspaceNewline_def)
    have placed': "case position s of
          None \<Rightarrow>
            childNodes (store s' ! value s) = ?m # childNodes (store s ! value s)
            \<and> parentNode (store s' ! ?m) = Some (value s)
        | Some r \<Rightarrow>
            if lcc (tagName (store s ! r)) = ''mrow''
            then childNodes (store s' ! r) = ?m # childNodes (store s ! r)
                 \<and> parentNode (store s' ! ?m) = Some r
            else if lcc (tagName (store s ! r)) = ''math''
            then childNodes (store s' ! value s) = childNodes (store s ! value s) @ [?m]
                 \<and> parentNode (store s' ! ?m) = Some (value s)
            else (\<exists>u. parentNode (store s ! r) = Some u \<and> parentNode (store s' ! ?m) = Some u
                   \<and> (\<forall>xs ys. childNodes (store s ! u) = xs @ r # ys \<and> r \<notin> set xs
                        \<longrightarrow> childNodes (store s' ! u) = xs @ r # ?m # ys))"
    proof (cases "position s")
      case None
      with placed root show ?thesis by (simp add: nth_append)
    next
      case (Some r)
      with G have r: "r = p" "p < length (store s)" by auto
      show ?thesis
      proof (cases "lcc (tagName (store s ! p)) = ''mrow'' \<or> lcc (tagName (store s ! p)) = ''math''")
        case True
        with placed Some r root show ?thesis by (auto simp add: nth_append)
      next
        case False
        with G Some r have q: "parentNode (store s ! p) = Some q" "q < length (store s)"
          by (auto simp add: lcc2_def)
        from placed Some r False q show ?thesis
          by (simp add: nth_append)
      qed
    qed
    from eq s' cur shape placed' show ?thesis by simp
  qed
  from a b t c c' d show ?thesis by blast
qed

text \<open>
  In \<open>math[mi, mo]\<close> with the cursor after \<open>mi\<close>, \<open>insertNewline\<close> gives
  \<open>math[mi, mspace, mo]\<close>; with the cursor at the \<open>math\<close> root it gives
  \<open>math[mi, mo, mspace]\<close>; in an editor just constructed it gives \<open>math[mspace]\<close>; each
  time with the cursor at the \<open>mspace\<close>.
\<close>

theorem insertNewline_cases_witness:
  "(\<exists>s'. insertNewline alwaysEditable docTwo = Inr s'
      \<and> position s' = Some 4 \<and> length (store s') = 5
      \<and> tagName (store s' ! 4) = ''mspace''
      \<and> attributes (store s' ! 4) = [(''linebreak'', ''newline'')]
      \<and> parentNode (store s' ! 4) = Some 0
      \<and> childNodes (store s' ! 0) = [1, 4, 2])
   \<and> (\<exists>s'. insertNewline alwaysEditable (docTwo\<lparr>position := Some 0\<rparr>) = Inr s'
      \<and> position s' = Some 4
      \<and> parentNode (store s' ! 4) = Some 0
      \<and> childNodes (store s' ! 0) = [1, 2, 4])
   \<and> (\<exists>s'. insertNewline alwaysEditable (newEditor None True False) = Inr s'
      \<and> position s' = Some 1
      \<and> parentNode (store s' ! 1) = Some 0
      \<and> childNodes (store s' ! 0) = [1])"
proof -
  have allow: "allowNewlines docTwo"
    by (simp add: docTwo_def newEditor_def createElement_def)
  have fresh: "allowNewlines (newEditor None True False)"
    "position (newEditor None True False) = None"
    "value (newEditor None True False) = 0"
    "store (newEditor None True False) = [element ''math'' [] None]"
    "\<not> readonly (newEditor None True False)"
    by (simp_all add: newEditor_def createElement_def element_def)
  have len: "length (store docTwo) = 4" "length (store (docTwo\<lparr>position := Some 0\<rparr>)) = 4"
    "length (store (newEditor None True False)) = 1"
    by (simp_all add: docTwo_facts fresh)
  note after = insertNewline_cases [of docTwo alwaysEditable 1 0,
      THEN conjunct2, THEN conjunct2, THEN conjunct2, THEN conjunct2, unfolded len]
  note atRoot = insertNewline_cases [of "docTwo\<lparr>position := Some 0\<rparr>" alwaysEditable 0 0,
      THEN conjunct2, THEN conjunct2, THEN conjunct2, THEN conjunct2, unfolded len]
  note none = insertNewline_cases [of "newEditor None True False" alwaysEditable 0 0,
      THEN conjunct2, THEN conjunct2, THEN conjunct2, THEN conjunct2, unfolded len]
  from after obtain s1 where s1: "insertNewline alwaysEditable docTwo = Inr s1"
    "position s1 = Some 4" "length (store s1) = 5" "tagName (store s1 ! 4) = ''mspace''"
    "attributes (store s1 ! 4) = [(''linebreak'', ''newline'')]"
    "parentNode (store s1 ! 4) = Some 0"
    "\<forall>xs ys. [1, 2] = xs @ 1 # ys \<and> 1 \<notin> set xs \<longrightarrow> childNodes (store s1 ! 0) = xs @ 1 # 4 # ys"
    by (auto simp add: allow docTwo_facts element_def lcc2_def lcc_examples)
  from s1(7) have "[1, 2] = [] @ 1 # [2] \<and> 1 \<notin> set ([]::nat list)
      \<longrightarrow> childNodes (store s1 ! 0) = [] @ 1 # 4 # [2]"
    by blast
  then have c1: "childNodes (store s1 ! 0) = [1, 4, 2]"
    by simp
  from atRoot have r2: "\<exists>s'. insertNewline alwaysEditable (docTwo\<lparr>position := Some 0\<rparr>) = Inr s'
      \<and> position s' = Some 4
      \<and> parentNode (store s' ! 4) = Some 0
      \<and> childNodes (store s' ! 0) = [1, 2, 4]"
    by (auto simp add: allow docTwo_facts element_def lcc2_def lcc_examples)
  from none have r3: "\<exists>s'. insertNewline alwaysEditable (newEditor None True False) = Inr s'
      \<and> position s' = Some 1
      \<and> parentNode (store s' ! 1) = Some 0
      \<and> childNodes (store s' ! 0) = [1]"
    by (auto simp add: fresh element_def)
  from s1(1-6) c1 r2 r3 show ?thesis by blast
qed

text \<open>
  The claim as worded fails where \<open>insert\<close> returns at its readonly guard. In the readonly
  editor on \<open>math[mi, mo]\<close>, newlines are allowed and the cursor is after \<open>mi\<close>, whose
  parent is the \<open>math\<close> root; \<open>insertNewline\<close> creates the \<open>mspace\<close> but inserts it
  nowhere: the children of the root and the cursor are as before.
\<close>

theorem insertNewline_always_inserts_counterexample:
  "allowNewlines docReadonly \<and> position docReadonly = Some 1
   \<and> parentNode (store docReadonly ! 1) = Some 0
   \<and> lcc2 (tagName (store docReadonly ! 0)) ''math''
   \<and> \<not> threw (insertNewline neverEditable docReadonly)
   \<and> position (stateOf (insertNewline neverEditable docReadonly)) = Some 1
   \<and> childNodes (store (stateOf (insertNewline neverEditable docReadonly)) ! 0) = [1, 2]
   \<and> parentNode (store (stateOf (insertNewline neverEditable docReadonly)) ! 4) = None"
  by (simp add: insertNewline_def newline_def insert_elem_def neverEditable_def docReadonly_def
      docTwo_def newEditor_def createElement_def threw_def stateOf_def element_def lcc2_def
      lcc_examples)

text \<open>
  C10. With the readonly option on and a cursor position that is not editable, \<open>insert\<close>
  returns without changing anything: the store (so the tree), the cursor position, the
  focus state and everything else the editor holds are as before.
\<close>

theorem insert_readonly_noop:
  "readonly s \<Longrightarrow> \<not> isEditable (store s) (position s) \<Longrightarrow>
   insert_elem isEditable el moveTo s = Inr s"
  by (simp add: insert_elem_def)

theorem insert_readonly_noop_witness:
  "readonly (newEditor None False True) \<and>
   insert_elem (\<lambda>h pos. False) 0 None (newEditor None False True)
     = Inr (newEditor None False True)"
proof -
  have ro: "readonly (newEditor None False True)"
    by (simp add: newEditor_def createElement_def)
  show ?thesis
    using ro insert_readonly_noop [of "newEditor None False True" "\<lambda>h pos. False" 0 None]
    by simp
qed

end
